theory Spec2Isabelle
  imports Complex_Main "HOL-Library.Word" "HOL-Library.Sublist"
begin

section \<open>Bytes, struct.pack and the container header\<close>

text \<open>
  A Python \<open>bytes\<close> value is a list of 8-bit words. \<open>struct.pack\<close> with the format
  \<open><4sI4s4sIHHIIHH4sI\<close> writes each field little-endian without padding and raises
  \<open>struct.error\<close> when an integer does not fit its field; the model keeps that raise
  as an error value.
\<close>

type_synonym byte = "8 word"

datatype exn =
    HTTPException nat string
  | StructError
  | ValueError
  | WaveError

definition encode_ascii :: "string \<Rightarrow> byte list" where
  "encode_ascii s = map (\<lambda>c. word_of_nat (of_char c)) s"

fun le_bytes :: "nat \<Rightarrow> int \<Rightarrow> byte list" where
  "le_bytes 0 n = []"
| "le_bytes (Suc k) n = word_of_int n # le_bytes k (n div 256)"

fun le_uint :: "byte list \<Rightarrow> int" where
  "le_uint [] = 0"
| "le_uint (b # bs) = uint b + 256 * le_uint bs"

definition le_sint16 :: "byte list \<Rightarrow> int" where
  "le_sint16 bs = (let u = le_uint bs in if u < 32768 then u else u - 65536)"

text \<open>Python's \<open>b[i:j]\<close> for \<open>0 \<le> i \<le> j\<close>.\<close>

definition py_slice :: "nat \<Rightarrow> nat \<Rightarrow> 'a list \<Rightarrow> 'a list" where
  "py_slice i j xs = take (j - i) (drop i xs)"

text \<open>
  The fields of a format string: \<open>4s\<close> (four bytes of a byte string, cut or padded with
  zero bytes), \<open>I\<close> and \<open>L\<close> (unsigned, 4 bytes), \<open>H\<close> (unsigned, 2 bytes).
\<close>

datatype fmt_field = S4 string | I int | L int | H int

fun pack_field :: "fmt_field \<Rightarrow> exn + byte list" where
  "pack_field (S4 s) = Inr (encode_ascii (take 4 s) @ replicate (4 - length s) 0)"
| "pack_field (I n) = (if 0 \<le> n \<and> n < 2 ^ 32 then Inr (le_bytes 4 n) else Inl StructError)"
| "pack_field (L n) = (if 0 \<le> n \<and> n < 2 ^ 32 then Inr (le_bytes 4 n) else Inl StructError)"
| "pack_field (H n) = (if 0 \<le> n \<and> n < 2 ^ 16 then Inr (le_bytes 2 n) else Inl StructError)"

fun struct_pack :: "fmt_field list \<Rightarrow> exn + byte list" where
  "struct_pack [] = Inr []"
| "struct_pack (f # fs) =
     (case pack_field f of
        Inl e \<Rightarrow> Inl e
      | Inr b \<Rightarrow> (case struct_pack fs of Inl e \<Rightarrow> Inl e | Inr bs \<Rightarrow> Inr (b @ bs)))"

text \<open>\<open>make_wav_header\<close> of daemon.py; Python's \<open>//\<close> is \<open>div\<close> on \<open>int\<close>.\<close>

definition make_wav_header :: "int \<Rightarrow> int \<Rightarrow> int \<Rightarrow> exn + byte list" where
  "make_wav_header sample_rate num_channels bits_per_sample =
     (let byte_rate = sample_rate * num_channels * bits_per_sample div 8;
          block_align = num_channels * bits_per_sample div 8;
          data_size = 0x7FFFFFFF;
          file_size = data_size + 36
      in struct_pack
           [S4 ''RIFF'', I file_size, S4 ''WAVE'', S4 ''fmt '', I 16, H 1,
            H num_channels, I sample_rate, I byte_rate, H block_align,
            H bits_per_sample, S4 ''data'', I data_size])"

text \<open>\<open>make_wav_header\<close> of raw_server.py (one argument, 16-bit mono written out).\<close>

definition raw_make_wav_header :: "int \<Rightarrow> exn + byte list" where
  "raw_make_wav_header sample_rate =
     (let byte_rate = sample_rate * 2;
          data_size = 0x7FFFFFFF;
          file_size = data_size + 36
      in struct_pack
           [S4 ''RIFF'', I file_size, S4 ''WAVE'', S4 ''fmt '', I 16, H 1, H 1,
            I sample_rate, I byte_rate, H 2, H 16, S4 ''data'', I data_size])"

text \<open>
  The standard library's \<open>wave\<close> writer as the buffered endpoint drives it:
  \<open>setnchannels(1)\<close>, \<open>setsampwidth(2)\<close>, \<open>setframerate(r)\<close> (which raises
  \<open>wave.Error\<close> for \<open>r \<le> 0\<close>), then \<open>writeframes(data)\<close>, which writes the tag
  \<open>RIFF\<close>, the packed header \<open><L4s4sLHHLLHH4s\<close>, the packed data length \<open><L\<close> and
  the data. The data length it declares is the number of bytes written.
\<close>

definition wave_write :: "int \<Rightarrow> byte list \<Rightarrow> exn + byte list" where
  "wave_write framerate data =
     (if framerate \<le> 0 then Inl WaveError
      else
        let nchannels = 1; sampwidth = 2; datalength = int (length data)
        in case struct_pack
                  [L (36 + datalength), S4 ''WAVE'', S4 ''fmt '', L 16, H 1, H nchannels,
                   L framerate, L (nchannels * framerate * sampwidth),
                   H (nchannels * sampwidth), H (sampwidth * 8), S4 ''data''] of
             Inl e \<Rightarrow> Inl e
           | Inr h \<Rightarrow>
               (case struct_pack [L datalength] of
                  Inl e \<Rightarrow> Inl e
                | Inr d \<Rightarrow> Inr (encode_ascii ''RIFF'' @ h @ d @ data)))"

text \<open>
  The layout of a 44-byte container header, read back from its bytes: the four tags,
  and every integer field decoded little-endian at its offset.
\<close>

definition header_layout :: "byte list \<Rightarrow> int \<Rightarrow> int \<Rightarrow> int \<Rightarrow> int \<Rightarrow> bool" where
  "header_layout h file_size channels rate data_size =
     (length h = 44 \<and>
      py_slice 0 4 h = encode_ascii ''RIFF'' \<and>
      le_uint (py_slice 4 8 h) = file_size \<and>
      py_slice 8 12 h = encode_ascii ''WAVE'' \<and>
      py_slice 12 16 h = encode_ascii ''fmt '' \<and>
      le_uint (py_slice 16 20 h) = 16 \<and>
      le_uint (py_slice 20 22 h) = 1 \<and>
      le_uint (py_slice 22 24 h) = channels \<and>
      le_uint (py_slice 24 28 h) = rate \<and>
      le_uint (py_slice 28 32 h) = rate * channels * 16 div 8 \<and>
      le_uint (py_slice 32 34 h) = channels * 16 div 8 \<and>
      le_uint (py_slice 34 36 h) = 16 \<and>
      py_slice 36 40 h = encode_ascii ''data'' \<and>
      le_uint (py_slice 40 44 h) = data_size)"

section \<open>Frame encoding and trailing silence\<close>

text \<open>
  A frame is a one-dimensional tensor of float32 samples. A finite float32 value is a
  real number; \<open>pcm_from_chunk\<close> is the encoding of a frame of finite samples, and
  \<open>pcm_from_chunk32\<close> below the encoding of a frame of any float32 values, infinities
  and NaN included. The float32 product is the parameter \<open>float_mul\<close> of the
  environment below (the exact product, rounded to float32). \<open>.short()\<close> converts as a
  C cast does, truncating towards zero; over the reals the conversion is written with
  \<open>word_of_int\<close>, which would wrap where the cast has no defined result.
  \<open>.numpy().tobytes()\<close> writes each 16-bit value low byte first (the byte order of the
  machines the program runs on).
\<close>

type_synonym chunk = "real list"

definition trunc_toward_zero :: "real \<Rightarrow> int" where
  "trunc_toward_zero x = (if 0 \<le> x then \<lfloor>x\<rfloor> else \<lceil>x\<rceil>)"

definition clamp :: "real \<Rightarrow> real \<Rightarrow> real \<Rightarrow> real" where
  "clamp lo hi x = min (max x lo) hi"

definition short :: "real \<Rightarrow> 16 word" where
  "short x = word_of_int (trunc_toward_zero x)"

definition tobytes :: "16 word list \<Rightarrow> byte list" where
  "tobytes ws = concat (map (\<lambda>w. [ucast w, ucast (drop_bit 8 w)]) ws)"

definition pcm_from_chunk :: "(real \<Rightarrow> real \<Rightarrow> real) \<Rightarrow> chunk \<Rightarrow> byte list" where
  "pcm_from_chunk mul chunk =
     (let chunk_int16 = map (\<lambda>x. short (mul (clamp (- 1) 1 x) 32767)) chunk
      in tobytes chunk_int16)"






text \<open>
  \<open>int(sample_rate * 0.2)\<close>: the product is a double, \<open>int\<close> truncates it towards
  zero. For \<open>\<bar>sample_rate\<bar> < 2 ^ 52\<close> the double product truncates to the same integer
  as the exact product, which is what the model computes. \<open>bytes(n)\<close> is \<open>n\<close> zero
  bytes and raises \<open>ValueError\<close> for negative \<open>n\<close>.
\<close>

definition silence_samples :: "int \<Rightarrow> int" where
  "silence_samples sample_rate = trunc_toward_zero (of_int sample_rate * 0.2)"

definition py_bytes :: "int \<Rightarrow> exn + byte list" where
  "py_bytes n = (if n < 0 then Inl ValueError else Inr (replicate (nat n) 0))"

text \<open>The spec's \<open>silenceBlock\<close> length, in its own words: \<open>round(sampleRate * 0.2)\<close>.\<close>

definition spec_silence_samples :: "int \<Rightarrow> int" where
  "spec_silence_samples sample_rate = round (of_int sample_rate * (0.2 :: real))"

section \<open>Text handling\<close>

text \<open>
  Strings are lists of characters with codes below 256. \<open>str.strip()\<close> removes leading
  and trailing whitespace; the whitespace characters in that range are the codes below.
  \<open>str.split(sep)\<close> with a one-character separator never returns an empty list.
\<close>

definition isspace :: "char \<Rightarrow> bool" where
  "isspace c = ((of_char c :: nat) \<in> {9, 10, 11, 12, 13, 28, 29, 30, 31, 32, 133, 160})"

definition strip :: "string \<Rightarrow> string" where
  "strip s = rev (dropWhile isspace (rev (dropWhile isspace s)))"

fun split :: "char \<Rightarrow> string \<Rightarrow> string list" where
  "split sep [] = [[]]"
| "split sep (c # cs) =
     (if c = sep then [] # split sep cs
      else (case split sep cs of [] \<Rightarrow> [[c]] | l # ls \<Rightarrow> (c # l) # ls))"

definition VOICES :: "string list" where
  "VOICES = [''alba'', ''marius'', ''javert'', ''jean'', ''fantine'', ''cosette'',
             ''eponine'', ''azelma'']"

text \<open>
  \<open>str\<close> of a list of plain strings, as the f-string prints \<open>VOICES\<close>: the items in
  single quotes, separated by a comma and a space, in square brackets.
\<close>

fun join :: "string \<Rightarrow> string list \<Rightarrow> string" where
  "join sep [] = []"
| "join sep [x] = x"
| "join sep (x # y # ys) = x @ sep @ join sep (y # ys)"

definition str_of_list :: "string list \<Rightarrow> string" where
  "str_of_list xs = ''['' @ join '', '' (map (\<lambda>x. [CHR 0x27] @ x @ [CHR 0x27]) xs) @ '']''"

definition invalid_voice_detail :: "string \<Rightarrow> string" where
  "invalid_voice_detail voice =
     ''Invalid voice '' @ [CHR 0x27] @ voice @ [CHR 0x27] @ ''. Available: '' @ str_of_list VOICES"

section \<open>The engine, the process state and the observable events\<close>

text \<open>
  The synthesis engine is an external collaborator: \<open>TTSModel.load_model()\<close> returns an
  object with a sample rate, a conditioning call and a lazy frame sequence, here the
  list of the frames it will yield. The type \<open>'v\<close> is the opaque voice state. Every call
  to the engine, every pull on the lazy sequence and every block of output is recorded
  as an event, in the order the program performs them. The engine's calls are taken to
  return and its frame sequence to end: what the program does when the engine raises
  or never stops is outside this model.
\<close>

datatype 'v event =
    Load_model
  | Get_state string
  | Generate 'v string
  | Next_frame
  | Yield "byte list"
  | Sendall "byte list"
  | Close

record 'v tts_model =
  sample_rate :: int
  get_state_for_audio_prompt :: "string \<Rightarrow> 'v"
  generate_audio_stream :: "'v \<Rightarrow> string \<Rightarrow> chunk list"

record 'v env =
  load_model :: "'v tts_model"
  float_mul :: "real \<Rightarrow> real \<Rightarrow> real"

text \<open>
  The module globals \<open>_model\<close> and \<open>_voice_states\<close> of daemon.py, and the log of
  engine calls made so far.
\<close>

record 'v daemon =
  global_model :: "'v tts_model option"
  global_voice_states :: "string \<rightharpoonup> 'v"
  calls :: "'v event list"

definition init_daemon :: "'v daemon" where
  "init_daemon = \<lparr>global_model = None, global_voice_states = Map.empty, calls = []\<rparr>"

definition get_model :: "'v env \<Rightarrow> 'v daemon \<Rightarrow> 'v tts_model \<times> 'v daemon" where
  "get_model e st =
     (case global_model st of
        None \<Rightarrow>
          (let m = load_model e
           in (m, st\<lparr>global_model := Some m, calls := calls st @ [Load_model]\<rparr>))
      | Some m \<Rightarrow> (m, st))"

definition get_voice_state :: "'v env \<Rightarrow> string \<Rightarrow> 'v daemon \<Rightarrow> 'v \<times> 'v daemon" where
  "get_voice_state e voice st =
     (case global_voice_states st voice of
        None \<Rightarrow>
          (let (m, st1) = get_model e st;
               v = get_state_for_audio_prompt m voice
           in (v, st1\<lparr>global_voice_states := (global_voice_states st1)(voice \<mapsto> v),
                       calls := calls st1 @ [Get_state voice]\<rparr>))
      | Some v \<Rightarrow> (v, st))"

section \<open>The streaming generator and the HTTP handlers\<close>

text \<open>
  \<open>generate_streaming_wav\<close> is a generator; its value here is the list of events of a
  consumer that runs it to the end, and the exception that ended it, if any. The
  \<open>for\<close> loop pulls a frame, yields its bytes, and ends with the pull that finds the
  sequence exhausted.
\<close>

fun stream_chunks :: "(real \<Rightarrow> real \<Rightarrow> real) \<Rightarrow> chunk list \<Rightarrow> 'v event list" where
  "stream_chunks mul [] = [Next_frame]"
| "stream_chunks mul (c # cs) = Next_frame # Yield (pcm_from_chunk mul c) # stream_chunks mul cs"

definition generate_streaming_wav ::
  "(real \<Rightarrow> real \<Rightarrow> real) \<Rightarrow> chunk list \<Rightarrow> int \<Rightarrow> 'v event list \<times> exn option" where
  "generate_streaming_wav mul audio_chunks sr =
     (case make_wav_header sr 1 16 of
        Inl e \<Rightarrow> ([], Some e)
      | Inr header \<Rightarrow>
          (let evs = Yield header # stream_chunks mul audio_chunks
           in case py_bytes (silence_samples sr * 2) of
                Inl e \<Rightarrow> (evs, Some e)
              | Inr silence \<Rightarrow> (evs @ [Yield silence], None)))"

text \<open>
  A response: the events of its body, the exception that ended the body (if any) and
  the media type. The extra response headers of \<open>/tts\<close> are left out.
\<close>

datatype 'v response = StreamingResponse "'v event list" "exn option" string

definition text_to_speech ::
  "'v env \<Rightarrow> 'v daemon \<Rightarrow> string \<Rightarrow> string \<Rightarrow> (exn + 'v response) \<times> 'v daemon" where
  "text_to_speech e st text voice =
     (if text = [] \<or> strip text = [] then
        (Inl (HTTPException 400 ''Text cannot be empty''), st)
      else if voice \<notin> set VOICES then
        (Inl (HTTPException 400 (invalid_voice_detail voice)), st)
      else
        let (m, st1) = get_model e st;
            (voice_state, st2) = get_voice_state e voice st1;
            audio_chunks = generate_audio_stream m voice_state (strip text);
            st3 = st2\<lparr>calls := calls st2 @ [Generate voice_state (strip text)]\<rparr>;
            (body, err) = generate_streaming_wav (float_mul e) audio_chunks (sample_rate m)
        in (Inr (StreamingResponse body err ''audio/wav''), st3))"

text \<open>
  The buffered handler drains the sequence in the handler itself (\<open>list(...)\<close>): the
  pulls are in the log before the handler returns or raises.
\<close>

definition text_to_speech_buffered ::
  "'v env \<Rightarrow> 'v daemon \<Rightarrow> string \<Rightarrow> string \<Rightarrow> (exn + 'v response) \<times> 'v daemon" where
  "text_to_speech_buffered e st text voice =
     (if text = [] \<or> strip text = [] then
        (Inl (HTTPException 400 ''Text cannot be empty''), st)
      else if voice \<notin> set VOICES then
        (Inl (HTTPException 400 (invalid_voice_detail voice)), st)
      else
        let (m, st1) = get_model e st;
            (voice_state, st2) = get_voice_state e voice st1;
            audio_chunks = generate_audio_stream m voice_state (strip text);
            st3 = st2\<lparr>calls := calls st2 @ Generate voice_state (strip text)
                                    # replicate (length audio_chunks + 1) Next_frame\<rparr>
        in if audio_chunks = [] then
             (Inl (HTTPException 500 ''No audio generated''), st3)
           else
             let audio = concat audio_chunks;
                 audio_int16 = map (\<lambda>x. short (float_mul e (clamp (- 1) 1 x) 32767)) audio
             in case wave_write (sample_rate m) (tobytes audio_int16) of
                  Inl x \<Rightarrow> (Inl x, st3)
                | Inr buffer \<Rightarrow> (Inr (StreamingResponse [Yield buffer] None ''audio/wav''), st3))"

text \<open>
  The framework in front of the two handlers. Both declare \<open>text: str = Form(...)\<close>, a
  required form field, and \<open>voice: str = Form(default="alba")\<close>. A request carries a
  form field or not, and the framework reads a field sent with an empty value as a
  field not sent. When the required field is missing it answers 422 itself and the
  handler is not called (\<open>test_empty_text_returns_422\<close> and
  \<open>test_missing_text_returns_422\<close> of the repository's tests); a missing optional
  field takes its default.
\<close>

datatype 'v reply = Unprocessable_422 | Handled "exn + 'v response"

definition form_value :: "string option \<Rightarrow> string option" where
  "form_value sent = (case sent of None \<Rightarrow> None | Some s \<Rightarrow> if s = [] then None else Some s)"

definition form_voice :: "string option \<Rightarrow> string" where
  "form_voice sent = (case form_value sent of None \<Rightarrow> ''alba'' | Some v \<Rightarrow> v)"

definition post_tts ::
  "'v env \<Rightarrow> 'v daemon \<Rightarrow> string option \<Rightarrow> string option \<Rightarrow> 'v reply \<times> 'v daemon" where
  "post_tts e st text_field voice_field =
     (case form_value text_field of
        None \<Rightarrow> (Unprocessable_422, st)
      | Some text \<Rightarrow>
          (let (r, st') = text_to_speech e st text (form_voice voice_field)
           in (Handled r, st')))"

definition post_tts_buffered ::
  "'v env \<Rightarrow> 'v daemon \<Rightarrow> string option \<Rightarrow> string option \<Rightarrow> 'v reply \<times> 'v daemon" where
  "post_tts_buffered e st text_field voice_field =
     (case form_value text_field of
        None \<Rightarrow> (Unprocessable_422, st)
      | Some text \<Rightarrow>
          (let (r, st') = text_to_speech_buffered e st text (form_voice voice_field)
           in (Handled r, st')))"

text \<open>\<open>run_server\<close> up to the point where it starts serving.\<close>

definition run_server :: "'v env \<Rightarrow> 'v daemon \<Rightarrow> 'v daemon" where
  "run_server e st = snd (get_voice_state e ''alba'' (snd (get_model e st)))"

text \<open>Sequential executions of the daemon: a list of calls, each run to its end.\<close>

datatype request =
    Call_get_model
  | Call_get_voice_state string
  | Call_run_server
  | Get_health
  | Post_tts string string
  | Post_tts_buffered string string

fun exec :: "'v env \<Rightarrow> request \<Rightarrow> 'v daemon \<Rightarrow> 'v daemon" where
  "exec e Call_get_model st = snd (get_model e st)"
| "exec e (Call_get_voice_state voice) st = snd (get_voice_state e voice st)"
| "exec e Call_run_server st = run_server e st"
| "exec e Get_health st = st"
| "exec e (Post_tts text voice) st = snd (text_to_speech e st text voice)"
| "exec e (Post_tts_buffered text voice) st = snd (text_to_speech_buffered e st text voice)"

definition run :: "'v env \<Rightarrow> request list \<Rightarrow> 'v daemon \<Rightarrow> 'v daemon" where
  "run e rs st = fold (exec e) rs st"

section \<open>Threads inside get_model\<close>

text \<open>
  The HTTP framework runs handlers on several threads. A thread inside \<open>get_model\<close>
  is at the test \<open>_model is None\<close>, at the load and assignment, at \<open>return _model\<close>,
  or has returned a value; a scheduler picks which thread takes the next step.
\<close>

datatype pc = At_test | At_load | At_return | Returned

type_synonym 'v thread = "pc \<times> 'v tts_model option"

fun thread_step :: "'v env \<Rightarrow> 'v thread \<Rightarrow> 'v daemon \<Rightarrow> 'v thread \<times> 'v daemon" where
  "thread_step e (At_test, r) st =
     (if global_model st = None then ((At_load, r), st) else ((At_return, r), st))"
| "thread_step e (At_load, r) st =
     ((At_return, r), st\<lparr>global_model := Some (load_model e), calls := calls st @ [Load_model]\<rparr>)"
| "thread_step e (At_return, r) st = ((Returned, global_model st), st)"
| "thread_step e (Returned, r) st = ((Returned, r), st)"

fun sched_step :: "'v env \<Rightarrow> nat \<Rightarrow> 'v thread list \<times> 'v daemon \<Rightarrow> 'v thread list \<times> 'v daemon" where
  "sched_step e i (ts, st) =
     (if i < length ts
      then (let (t, st') = thread_step e (ts ! i) st in (ts[i := t], st'))
      else (ts, st))"

definition run_threads ::
  "'v env \<Rightarrow> nat list \<Rightarrow> 'v thread list \<times> 'v daemon \<Rightarrow> 'v thread list \<times> 'v daemon" where
  "run_threads e sched cfg = fold (sched_step e) sched cfg"

definition loads :: "'v daemon \<Rightarrow> nat" where
  "loads st = count_list (calls st) Load_model"

section \<open>The raw socket server\<close>

text \<open>
  \<open>handle_client\<close> takes the request after \<open>recv\<close> and UTF-8 decoding. It returns the
  updated voice-state dictionary, the events of the connection and the exception its
  \<open>except\<close> branch caught, if any; \<open>finally\<close> closes the connection either way.
\<close>

fun send_chunks :: "(real \<Rightarrow> real \<Rightarrow> real) \<Rightarrow> chunk list \<Rightarrow> 'v event list" where
  "send_chunks mul [] = [Next_frame]"
| "send_chunks mul (c # cs) =
     Next_frame # Sendall (tobytes (map (\<lambda>x. short (mul (clamp (- 1) 1 x) 32767)) c))
       # send_chunks mul cs"

definition parse_request :: "string \<Rightarrow> string \<times> string" where
  "parse_request data =
     (let lines = split (CHR 0x0A) (strip data);
          voice = (if length lines > 0 then lines ! 0 else ''alba'');
          text = (if length lines > 1 then lines ! 1 else ''Hello world'')
      in (voice, text))"

text \<open>
  The first line of a request as it was received, before any stripping: what a reader
  of the protocol (voice name, line feed, text) takes the voice line to be.
\<close>

definition spec_first_line :: "string \<Rightarrow> string" where
  "spec_first_line data = hd (split (CHR 0x0A) data)"

definition handle_client ::
  "(real \<Rightarrow> real \<Rightarrow> real) \<Rightarrow> 'v tts_model \<Rightarrow> (string \<rightharpoonup> 'v) \<Rightarrow> string
     \<Rightarrow> (string \<rightharpoonup> 'v) \<times> 'v event list \<times> exn option" where
  "handle_client mul m vstates data =
     (let (voice, text) = parse_request data;
          (voice_state, vstates', ev1) =
            (case vstates voice of
               None \<Rightarrow>
                 (let v = get_state_for_audio_prompt m voice
                  in (v, vstates(voice \<mapsto> v), [Get_state voice]))
             | Some v \<Rightarrow> (v, vstates, []))
      in case raw_make_wav_header (sample_rate m) of
           Inl x \<Rightarrow> (vstates', ev1 @ [Close], Some x)
         | Inr header \<Rightarrow>
             (let ev2 = ev1 @ [Sendall header, Generate voice_state text]
                          @ send_chunks mul (generate_audio_stream m voice_state text)
              in case py_bytes (silence_samples (sample_rate m) * 2) of
                   Inl x \<Rightarrow> (vstates', ev2 @ [Close], Some x)
                 | Inr silence \<Rightarrow> (vstates', ev2 @ [Sendall silence, Close], None)))"

text \<open>\<open>main\<close>: the dictionary it starts with, and the serial accept loop over a list of requests.\<close>

definition raw_initial_states :: "'v tts_model \<Rightarrow> (string \<rightharpoonup> 'v)" where
  "raw_initial_states m = [''alba'' \<mapsto> get_state_for_audio_prompt m ''alba'']"

fun serve :: "(real \<Rightarrow> real \<Rightarrow> real) \<Rightarrow> 'v tts_model \<Rightarrow> (string \<rightharpoonup> 'v) \<Rightarrow> string list
     \<Rightarrow> (string \<rightharpoonup> 'v) \<times> 'v event list" where
  "serve mul m vstates [] = (vstates, [])"
| "serve mul m vstates (d # ds) =
     (let (vstates', evs, x) = handle_client mul m vstates d;
          (vstates'', evs') = serve mul m vstates' ds
      in (vstates'', evs @ evs'))"

text \<open>What a trace hands to the client, block by block.\<close>

fun yields :: "'v event list \<Rightarrow> byte list list" where
  "yields [] = []"
| "yields (Yield b # es) = b # yields es"
| "yields (Sendall b # es) = b # yields es"
| "yields (_ # es) = yields es"

section \<open>The invariant of sequential executions\<close>

text \<open>
  The engine-call log holds a load only if the model reference is set, and a
  conditioning call for a voice only if that voice is in the cache, each at most once.
\<close>

definition cache_inv :: "'v daemon \<Rightarrow> bool" where
  "cache_inv st =
     (count_list (calls st) Load_model \<le> (if global_model st = None then 0 else 1) \<and>
      (\<forall>voice. count_list (calls st) (Get_state voice)
                 \<le> (if global_voice_states st voice = None then 0 else 1)))"

text \<open>
  In a sequential execution the model reference is either unset, with no load so far,
  or holds what the one load returned.
\<close>

definition load_inv :: "'v env \<Rightarrow> 'v daemon \<Rightarrow> bool" where
  "load_inv e st =
     (global_model st = None \<and> loads st = 0 \<or>
      global_model st = Some (load_model e) \<and> loads st = 1)"

section \<open>Test data\<close>

text \<open>
  A stand-in engine for evaluating the definitions on concrete inputs: 24000 Hz, a voice
  state that is the voice name itself, and two frames whatever the text. Its float
  product is the exact one, which is what float32 computes on these samples.
\<close>

definition demo_model :: "string tts_model" where
  "demo_model = \<lparr>sample_rate = 24000, get_state_for_audio_prompt = (\<lambda>voice. voice),
                  generate_audio_stream = (\<lambda>v text. [[1, - 3], [1 / 2]])\<rparr>"

definition demo_env :: "string env" where
  "demo_env = \<lparr>load_model = demo_model, float_mul = (*)\<rparr>"

definition demo_header :: "byte list" where
  "demo_header =
     [82, 73, 70, 70, 35, 0, 0, 128, 87, 65, 86, 69, 102, 109, 116, 32, 16, 0, 0, 0,
      1, 0, 1, 0, 192, 93, 0, 0, 128, 187, 0, 0, 2, 0, 16, 0, 100, 97, 116, 97,
      255, 255, 255, 127]"

text \<open>
  A second stand-in engine, whose single frame of 2147483630 samples makes a PCM payload
  of \<open>2 ^ 32 - 36\<close> bytes.
\<close>

definition long_model :: "string tts_model" where
  "long_model = \<lparr>sample_rate = 24000, get_state_for_audio_prompt = (\<lambda>voice. voice),
                  generate_audio_stream = (\<lambda>v text. [replicate 2147483630 0])\<rparr>"

definition long_env :: "string env" where
  "long_env = \<lparr>load_model = long_model, float_mul = (*)\<rparr>"

text \<open>A third stand-in engine, which yields no frame.\<close>

definition mute_model :: "string tts_model" where
  "mute_model = \<lparr>sample_rate = 24000, get_state_for_audio_prompt = (\<lambda>voice. voice),
                  generate_audio_stream = (\<lambda>v text. [])\<rparr>"

definition mute_env :: "string env" where
  "mute_env = \<lparr>load_model = mute_model, float_mul = (*)\<rparr>"

section \<open>Basic facts\<close>

lemma length_le_bytes: "length (le_bytes k n) = k"
  by (induction k arbitrary: n) auto

lemma length_encode_ascii: "length (encode_ascii s) = length s"
  by (simp add: encode_ascii_def)

lemma le_bytes_2: "le_bytes 2 n = [word_of_int n, word_of_int (n div 256)]"
  by (simp add: numeral_eq_Suc)

lemma le_bytes_4:
  "le_bytes 4 n = [word_of_int n, word_of_int (n div 256), word_of_int (n div 256 div 256),
                   word_of_int (n div 256 div 256 div 256)]"
  by (simp add: numeral_eq_Suc)

lemma le_uint_le_bytes: "0 \<le> n \<Longrightarrow> n < 256 ^ k \<Longrightarrow> le_uint (le_bytes k n) = n"
proof (induction k arbitrary: n)
  case 0
  then show ?case by simp
next
  case (Suc k)
  have d: "0 \<le> n div 256" "n div 256 < 256 ^ k"
    using Suc.prems by (auto simp: div_less_iff_less_mult pos_imp_zdiv_nonneg_iff)
  have "uint (word_of_int n :: byte) = n mod 256"
    by (simp add: uint_word_of_int)
  with Suc.IH [OF d] show ?case by simp
qed

lemma header_slices:
  fixes a b c d e f g i j :: int
  assumes "length s1 = 4" "length s3 = 4" "length s4 = 4" "length s12 = 4"
  defines "h \<equiv> encode_ascii s1 @ le_bytes 4 a @ encode_ascii s3 @ encode_ascii s4
     @ le_bytes 4 b @ le_bytes 2 c @ le_bytes 2 d @ le_bytes 4 e @ le_bytes 4 f
     @ le_bytes 2 g @ le_bytes 2 i @ encode_ascii s12 @ le_bytes 4 j"
  shows "length h = 44" "py_slice 0 4 h = encode_ascii s1" "py_slice 4 8 h = le_bytes 4 a"
    "py_slice 8 12 h = encode_ascii s3" "py_slice 12 16 h = encode_ascii s4"
    "py_slice 16 20 h = le_bytes 4 b" "py_slice 20 22 h = le_bytes 2 c" "py_slice 22 24 h = le_bytes 2 d"
    "py_slice 24 28 h = le_bytes 4 e" "py_slice 28 32 h = le_bytes 4 f" "py_slice 32 34 h = le_bytes 2 g"
    "py_slice 34 36 h = le_bytes 2 i" "py_slice 36 40 h = encode_ascii s12" "py_slice 40 44 h = le_bytes 4 j"
  using assms(1-4) unfolding h_def
  by (simp_all add: py_slice_def length_le_bytes length_encode_ascii del: le_bytes.simps)

section \<open>The streaming header\<close>

lemma raw_make_wav_header_eq: "raw_make_wav_header sr = make_wav_header sr 1 16"
  by (simp add: raw_make_wav_header_def make_wav_header_def Let_def mult.commute)

lemma make_wav_header_ok:
  assumes "0 \<le> sr" "sr < 2 ^ 32" "0 \<le> nc" "nc < 2 ^ 15" "sr * nc * 2 < 2 ^ 32"
  shows "make_wav_header sr nc 16 =
     Inr (encode_ascii ''RIFF'' @ le_bytes 4 (0x7FFFFFFF + 36) @ encode_ascii ''WAVE''
          @ encode_ascii ''fmt '' @ le_bytes 4 16 @ le_bytes 2 1 @ le_bytes 2 nc
          @ le_bytes 4 sr @ le_bytes 4 (sr * nc * 16 div 8) @ le_bytes 2 (nc * 16 div 8)
          @ le_bytes 2 16 @ encode_ascii ''data'' @ le_bytes 4 0x7FFFFFFF)"
proof -
  have a: "sr * nc * 16 div 8 = sr * nc * 2" "nc * 16 div 8 = nc * 2" by simp_all
  have b: "0 \<le> sr * nc * 2" using assms by simp
  show ?thesis
    unfolding make_wav_header_def Let_def a
    using assms b by (simp del: le_bytes.simps)
qed

lemma make_wav_header_mono_ok:
  assumes "0 \<le> sr" "sr < 2 ^ 31"
  shows "\<exists>h. make_wav_header sr 1 16 = Inr h \<and> length h = 44"
proof -
  have "make_wav_header sr 1 16 = Inr (encode_ascii ''RIFF'' @ le_bytes 4 (0x7FFFFFFF + 36)
          @ encode_ascii ''WAVE'' @ encode_ascii ''fmt '' @ le_bytes 4 16 @ le_bytes 2 1
          @ le_bytes 2 1 @ le_bytes 4 sr @ le_bytes 4 (sr * 1 * 16 div 8)
          @ le_bytes 2 (1 * 16 div 8) @ le_bytes 2 16 @ encode_ascii ''data''
          @ le_bytes 4 0x7FFFFFFF)"
    using assms by (intro make_wav_header_ok) simp_all
  then show ?thesis
    by (simp add: length_le_bytes length_encode_ascii del: le_bytes.simps)
qed

lemma make_wav_header_in_range:
  assumes "0 \<le> sr" "sr < 2 ^ 32" "0 \<le> nc" "nc < 2 ^ 15" "sr * nc * 2 < 2 ^ 32"
  shows "\<exists>h. make_wav_header sr nc 16 = Inr h \<and>
              header_layout h (0x7FFFFFFF + 36) nc sr 0x7FFFFFFF"
proof -
  have a: "sr * nc * 16 div 8 = sr * nc * 2" "nc * 16 div 8 = nc * 2" by simp_all
  have b: "0 \<le> sr * nc * 2" "0 \<le> nc * 2" "nc * 2 < 256 ^ 2" "nc < 256 ^ 2"
    "sr < 256 ^ 4" "sr * nc * 2 < 256 ^ 4" using assms by simp_all
  show ?thesis
    unfolding make_wav_header_ok [OF assms] header_layout_def a
    using assms b
    by (simp add: header_slices le_uint_le_bytes length_le_bytes length_encode_ascii
        del: le_bytes.simps)
qed

lemma make_wav_header_out_of_range:
  assumes "\<not> (0 \<le> sr \<and> sr < 2 ^ 32 \<and> 0 \<le> nc \<and> nc < 2 ^ 15 \<and> sr * nc * 2 < 2 ^ 32)"
  shows "make_wav_header sr nc 16 = Inl StructError"
proof -
  have a: "sr * nc * 16 div 8 = sr * nc * 2" "nc * 16 div 8 = nc * 2" by simp_all
  from assms show ?thesis
    unfolding make_wav_header_def Let_def a
    by (auto simp del: le_bytes.simps)
qed

text \<open>
  C2 (as amended). For every sample rate and channel count that fit the header's fields
  (sample rate from 0 to \<open>2 ^ 32 - 1\<close>, channel count from 0 to \<open>2 ^ 15 - 1\<close>, so that
  the block align fits 16 bits, and byte rate below \<open>2 ^ 32\<close>; for mono that is a sample
  rate from 0 to \<open>2 ^ 31 - 1\<close>), the streaming header construction
  returns exactly 44 bytes laid out little-endian as: tag RIFF, total size
  \<open>0x7FFFFFFF + 36\<close>, tag WAVE, tag fmt, sub-chunk size 16, format code 1, the channel
  count, the sample rate, byte rate \<open>rate * channels * 16 / 8\<close>, block align
  \<open>channels * 16 / 8\<close>, 16 bits per sample, tag data, and the data size sentinel
  \<open>0x7FFFFFFF\<close>. For every other sample rate and channel count \<open>struct.pack\<close> raises
  and no header is returned. The header function of the raw socket server is the mono
  case of the same function.
\<close>

theorem make_wav_header_layout:
  "(0 \<le> sr \<and> sr < 2 ^ 32 \<and> 0 \<le> nc \<and> nc < 2 ^ 15 \<and> sr * nc * 2 < 2 ^ 32 \<longrightarrow>
      (\<exists>h. make_wav_header sr nc 16 = Inr h \<and>
           header_layout h (0x7FFFFFFF + 36) nc sr 0x7FFFFFFF)) \<and>
   (\<not> (0 \<le> sr \<and> sr < 2 ^ 32 \<and> 0 \<le> nc \<and> nc < 2 ^ 15 \<and> sr * nc * 2 < 2 ^ 32) \<longrightarrow>
      make_wav_header sr nc 16 = Inl StructError) \<and>
   raw_make_wav_header sr = make_wav_header sr 1 16"
  using make_wav_header_in_range [of sr nc] make_wav_header_out_of_range [of sr nc]
  by (simp add: raw_make_wav_header_eq)

theorem make_wav_header_layout_witness:
  "make_wav_header 24000 1 16 =
     Inr [82, 73, 70, 70, 35, 0, 0, 128, 87, 65, 86, 69, 102, 109, 116, 32, 16, 0, 0, 0,
          1, 0, 1, 0, 192, 93, 0, 0, 128, 187, 0, 0, 2, 0, 16, 0, 100, 97, 116, 97,
          255, 255, 255, 127] \<and>
   header_layout
     [82, 73, 70, 70, 35, 0, 0, 128, 87, 65, 86, 69, 102, 109, 116, 32, 16, 0, 0, 0,
      1, 0, 1, 0, 192, 93, 0, 0, 128, 187, 0, 0, 2, 0, 16, 0, 100, 97, 116, 97,
      255, 255, 255, 127] (0x7FFFFFFF + 36) 1 24000 0x7FFFFFFF \<and>
   raw_make_wav_header 24000 = make_wav_header 24000 1 16 \<and>
   make_wav_header (- 1) 1 16 = Inl StructError \<and>
   make_wav_header 24000 40000 16 = Inl StructError \<and>
   raw_make_wav_header 4294967296 = Inl StructError"
proof -
  have v: "make_wav_header 24000 1 16 =
     Inr [82, 73, 70, 70, 35, 0, 0, 128, 87, 65, 86, 69, 102, 109, 116, 32, 16, 0, 0, 0,
          1, 0, 1, 0, 192, 93, 0, 0, 128, 187, 0, 0, 2, 0, 16, 0, 100, 97, 116, 97,
          255, 255, 255, 127]"
    by (simp add: make_wav_header_def Let_def encode_ascii_def le_bytes_2 le_bytes_4
        del: le_bytes.simps)
  from make_wav_header_layout [of 24000 1] v
  have a: "header_layout
     [82, 73, 70, 70, 35, 0, 0, 128, 87, 65, 86, 69, 102, 109, 116, 32, 16, 0, 0, 0,
      1, 0, 1, 0, 192, 93, 0, 0, 128, 187, 0, 0, 2, 0, 16, 0, 100, 97, 116, 97,
      255, 255, 255, 127] (0x7FFFFFFF + 36) 1 24000 0x7FFFFFFF"
    "raw_make_wav_header 24000 = make_wav_header 24000 1 16"
    by simp_all
  from make_wav_header_layout [of "- 1" 1]
  have b: "make_wav_header (- 1) 1 16 = Inl StructError" by simp
  from make_wav_header_layout [of 24000 40000]
  have c: "make_wav_header 24000 40000 16 = Inl StructError" by simp
  from make_wav_header_layout [of 4294967296 1]
  have d: "raw_make_wav_header 4294967296 = Inl StructError" by simp
  from v a b c d show ?thesis by blast
qed

theorem make_wav_header_range_counterexample:
  "make_wav_header 2147483648 1 16 = Inl StructError \<and>
   raw_make_wav_header 2147483648 = Inl StructError"
  by (simp add: make_wav_header_def raw_make_wav_header_def Let_def)

section \<open>Frame encoding\<close>

lemma length_tobytes: "length (tobytes ws) = 2 * length ws"
  by (induction ws) (simp_all add: tobytes_def)

lemma tobytes_Cons: "tobytes (w # ws) = ucast w # ucast (drop_bit 8 w) # tobytes ws"
  by (simp add: tobytes_def)

lemma slice_tobytes:
  "i < length ws \<Longrightarrow>
   py_slice (2 * i) (2 * i + 2) (tobytes ws) = [ucast (ws ! i), ucast (drop_bit 8 (ws ! i))]"
proof (induction ws arbitrary: i)
  case Nil
  then show ?case by simp
next
  case (Cons w ws)
  show ?case
  proof (cases i)
    case 0
    then show ?thesis by (simp add: py_slice_def tobytes_Cons)
  next
    case (Suc k)
    with Cons.prems have "k < length ws" by simp
    from Cons.IH [OF this] Suc show ?thesis
      by (simp add: py_slice_def tobytes_Cons)
  qed
qed

lemma le_uint_halves:
  fixes w :: "16 word"
  shows "le_uint [ucast w, ucast (drop_bit 8 w)] = uint w"
proof -
  have a: "uint (ucast w :: byte) = uint w mod 256"
    by (simp add: unsigned_ucast_eq take_bit_eq_mod)
  have b: "uint (ucast (drop_bit 8 w) :: byte) = (uint w div 256) mod 256"
    by (simp add: unsigned_ucast_eq take_bit_eq_mod unsigned_drop_bit_eq drop_bit_eq_div
        uint_div_distrib)
  have c: "uint w < 65536" using uint_lt2p [of w] by simp
  have d: "0 \<le> uint w" by simp
  from c d have "uint w div 256 < 256" "0 \<le> uint w div 256" by linarith+
  then have "(uint w div 256) mod 256 = uint w div 256" by simp
  with a b show ?thesis by simp
qed

lemma le_sint16_halves:
  fixes w :: "16 word"
  shows "le_sint16 [ucast w, ucast (drop_bit 8 w)] = sint w"
proof -
  have c: "uint w < 65536" "0 \<le> uint w" using uint_lt2p [of w] by simp_all
  have "sint w = (uint w + 32768) mod 65536 - 32768"
    by (simp add: sint_uint signed_take_bit_eq_take_bit_shift take_bit_eq_mod)
  with c have "sint w = (if uint w < 32768 then uint w else uint w - 65536)"
    by (simp add: mod_pos_pos_trivial) (smt (verit) minus_mod_self2 mod_pos_pos_trivial)
  then show ?thesis
    unfolding le_sint16_def le_uint_halves Let_def by simp
qed

lemma sint_short:
  assumes "- 32768 \<le> trunc_toward_zero x" "trunc_toward_zero x \<le> 32767"
  shows "sint (short x) = trunc_toward_zero x"
  unfolding short_def using assms
  by (simp add: signed_of_int signed_take_bit_int_eq_self)

lemma trunc_bounds:
  fixes y :: real
  assumes "- 32767 \<le> y" "y \<le> 32767"
  shows "- 32767 \<le> trunc_toward_zero y \<and> trunc_toward_zero y \<le> 32767"
  using assms unfolding trunc_toward_zero_def
  by (auto simp: le_floor_iff floor_le_iff ceiling_le_iff le_ceiling_iff)

lemma clamp_bounds: "- 1 \<le> clamp (- 1) 1 x \<and> clamp (- 1) 1 x \<le> 1"
  by (simp add: clamp_def)

lemma length_pcm_from_chunk: "length (pcm_from_chunk mul chunk) = 2 * length chunk"
  by (simp add: pcm_from_chunk_def length_tobytes)

lemma scaled_bounds:
  fixes mul :: "real \<Rightarrow> real \<Rightarrow> real"
  assumes mono: "\<forall>x y. x \<le> y \<longrightarrow> mul x 32767 \<le> mul y 32767"
    and hi: "mul 1 32767 = 32767" and lo: "mul (- 1) 32767 = - 32767"
  shows "- 32767 \<le> mul (clamp (- 1) 1 x) 32767 \<and> mul (clamp (- 1) 1 x) 32767 \<le> 32767"
proof -
  from clamp_bounds [of x] mono
  have "mul (- 1) 32767 \<le> mul (clamp (- 1) 1 x) 32767"
    "mul (clamp (- 1) 1 x) 32767 \<le> mul 1 32767"
    by blast+
  with hi lo show ?thesis by simp
qed

text \<open>
  Frames of finite samples: two bytes per sample, which decode to the clamped, scaled
  and truncated sample, an integer in the int16 range.
\<close>

lemma pcm_from_chunk_finite:
  assumes mono: "\<forall>x y. x \<le> y \<longrightarrow> mul x 32767 \<le> mul y 32767"
    and hi: "mul 1 32767 = 32767" and lo: "mul (- 1) 32767 = - 32767"
  shows "length (pcm_from_chunk mul chunk) = 2 * length chunk \<and>
    (\<forall>i < length chunk.
       - 32768 \<le> trunc_toward_zero (mul (clamp (- 1) 1 (chunk ! i)) 32767) \<and>
       trunc_toward_zero (mul (clamp (- 1) 1 (chunk ! i)) 32767) \<le> 32767 \<and>
       le_sint16 (py_slice (2 * i) (2 * i + 2) (pcm_from_chunk mul chunk)) =
         trunc_toward_zero (mul (clamp (- 1) 1 (chunk ! i)) 32767))"
proof (intro conjI allI impI)
  show "length (pcm_from_chunk mul chunk) = 2 * length chunk"
    by (rule length_pcm_from_chunk)
next
  fix i assume i: "i < length chunk"
  let ?v = "trunc_toward_zero (mul (clamp (- 1) 1 (chunk ! i)) 32767)"
  have "- 32767 \<le> mul (clamp (- 1) 1 (chunk ! i)) 32767"
    "mul (clamp (- 1) 1 (chunk ! i)) 32767 \<le> 32767"
    using scaled_bounds [of mul "chunk ! i"] assms by blast+
  from trunc_bounds [OF this]
  have r: "- 32767 \<le> ?v" "?v \<le> 32767" by simp_all
  then show "- 32768 \<le> ?v" "?v \<le> 32767" by simp_all
  from r have s: "sint (short (mul (clamp (- 1) 1 (chunk ! i)) 32767)) = ?v"
    by (intro sint_short) simp_all
  from i have "py_slice (2 * i) (2 * i + 2) (pcm_from_chunk mul chunk) =
      [ucast (short (mul (clamp (- 1) 1 (chunk ! i)) 32767)),
       ucast (drop_bit 8 (short (mul (clamp (- 1) 1 (chunk ! i)) 32767)))]"
    unfolding pcm_from_chunk_def Let_def
    using slice_tobytes [of i "map (\<lambda>x. short (mul (clamp (- 1) 1 x) 32767)) chunk"]
    by simp
  then show "le_sint16 (py_slice (2 * i) (2 * i + 2) (pcm_from_chunk mul chunk)) = ?v"
    by (simp only: le_sint16_halves s)
qed

lemma pcm_from_chunk_finite_example:
  "pcm_from_chunk (*) [1.5, - 0.5, - 3, 0.25] = [255, 127, 1, 192, 1, 128, 255, 31] \<and>
   length (pcm_from_chunk (*) [1.5, - 0.5, - 3, 0.25]) = 8 \<and>
   le_sint16 (py_slice 2 4 (pcm_from_chunk (*) [1.5, - 0.5, - 3, 0.25])) = - 16383 \<and>
   le_sint16 (py_slice 4 6 (pcm_from_chunk (*) [1.5, - 0.5, - 3, 0.25])) = - 32767"
proof -
  have h: "\<forall>x y :: real. x \<le> y \<longrightarrow> x * 32767 \<le> y * 32767" by simp
  note t = pcm_from_chunk_finite [of "(*)" "[1.5, - 0.5, - 3, 0.25]", OF h]
  have a: "trunc_toward_zero (clamp (- 1) 1 (- 0.5) * 32767) = - 16383"
    "trunc_toward_zero (clamp (- 1) 1 (- 3) * 32767) = - 32767"
    by (simp_all add: trunc_toward_zero_def clamp_def)
  from t have "length (pcm_from_chunk (*) [1.5, - 0.5, - 3, 0.25]) = 8" by simp
  moreover from t [THEN conjunct2, rule_format, of 1] a
  have "le_sint16 (py_slice 2 4 (pcm_from_chunk (*) [1.5, - 0.5, - 3, 0.25])) = - 16383" by simp
  moreover from t [THEN conjunct2, rule_format, of 2] a
  have "le_sint16 (py_slice 4 6 (pcm_from_chunk (*) [1.5, - 0.5, - 3, 0.25])) = - 32767" by simp
  moreover have "pcm_from_chunk (*) [1.5, - 0.5, - 3, 0.25] = [255, 127, 1, 192, 1, 128, 255, 31]"
    by (simp add: pcm_from_chunk_def tobytes_def short_def trunc_toward_zero_def clamp_def
        drop_bit_eq_div)
  ultimately show ?thesis by simp
qed

subsection \<open>Every float32 value\<close>







section \<open>Streaming\<close>

lemma yields_append: "yields (xs @ ys) = yields xs @ yields ys"
  by (induction xs rule: yields.induct) simp_all

lemma yields_stream_chunks: "yields (stream_chunks mul cs) = map (pcm_from_chunk mul) cs"
  by (induction cs) simp_all

lemma yields_send_chunks: "yields (send_chunks mul cs) = map (pcm_from_chunk mul) cs"
  by (induction cs) (simp_all add: pcm_from_chunk_def)

lemma silence_samples_nonneg: "0 \<le> sr \<Longrightarrow> silence_samples sr = sr div 5"
proof -
  assume a: "0 \<le> sr"
  have "real_of_int sr * 0.2 = real_of_int sr / real_of_int 5" by simp
  then have "\<lfloor>real_of_int sr * 0.2\<rfloor> = sr div 5"
    by (simp only: floor_divide_of_int_eq)
  with a show ?thesis by (simp add: silence_samples_def trunc_toward_zero_def)
qed

lemma make_wav_header_nonneg: "make_wav_header sr 1 16 = Inr h \<Longrightarrow> 0 \<le> sr \<and> sr < 2 ^ 31"
  by (auto simp: make_wav_header_def Let_def split: if_splits sum.splits)

lemma demo_header_eq: "make_wav_header 24000 1 16 = Inr demo_header"
  by (simp add: make_wav_header_def Let_def encode_ascii_def le_bytes_2 le_bytes_4 demo_header_def
        del: le_bytes.simps)

lemma generate_streaming_wav_ok:
  assumes "generate_streaming_wav mul cs sr = (evs, None)"
  shows "\<exists>header. make_wav_header sr 1 16 = Inr header \<and> length header = 44 \<and> 0 \<le> sr \<and>
     evs = Yield header # stream_chunks mul cs @ [Yield (replicate (nat (2 * (sr div 5))) 0)]"
proof -
  from assms obtain header where h: "make_wav_header sr 1 16 = Inr header"
    by (auto simp: generate_streaming_wav_def split: sum.splits)
  from make_wav_header_nonneg [OF h] have sr: "0 \<le> sr" "sr < 2 ^ 31" by simp_all
  from make_wav_header_mono_ok [OF sr] h have l: "length header = 44" by simp
  from assms h sr l show ?thesis
    by (auto simp: generate_streaming_wav_def Let_def py_bytes_def silence_samples_nonneg
        mult.commute split: sum.splits if_splits)
qed

lemma generate_streaming_wav_total:
  assumes "0 \<le> sr" "sr < 2 ^ 31"
  shows "\<exists>evs. generate_streaming_wav mul cs sr = (evs, None)"
proof -
  from make_wav_header_mono_ok [OF assms] obtain h where "make_wav_header sr 1 16 = Inr h" by blast
  with assms show ?thesis
    by (simp add: generate_streaming_wav_def Let_def py_bytes_def silence_samples_nonneg)
qed

section \<open>The engine handle and the voice-state cache\<close>

lemma get_model_loaded: "global_model st = Some m \<Longrightarrow> get_model e st = (m, st)"
  by (simp add: get_model_def)

lemma get_model_unloaded:
  "global_model st = None \<Longrightarrow>
   get_model e st =
     (load_model e, st\<lparr>global_model := Some (load_model e), calls := calls st @ [Load_model]\<rparr>)"
  by (simp add: get_model_def Let_def)

lemma get_model_after:
  "global_model (snd (get_model e st)) = Some (fst (get_model e st))"
  "global_voice_states (snd (get_model e st)) = global_voice_states st"
  "calls (snd (get_model e st)) = calls st @ (if global_model st = None then [Load_model] else [])"
  by (simp_all add: get_model_def Let_def split: option.splits)

lemma get_voice_state_hit:
  "global_voice_states st voice = Some v \<Longrightarrow> get_voice_state e voice st = (v, st)"
  by (simp add: get_voice_state_def)

lemma get_voice_state_miss:
  "global_voice_states st voice = None \<Longrightarrow>
   get_voice_state e voice st =
     (get_state_for_audio_prompt (fst (get_model e st)) voice,
      (snd (get_model e st))
        \<lparr>global_voice_states :=
           (global_voice_states st)(voice \<mapsto> get_state_for_audio_prompt (fst (get_model e st)) voice),
         calls := calls (snd (get_model e st)) @ [Get_state voice]\<rparr>)"
  by (cases "get_model e st") (use get_model_after [of e st] in \<open>simp add: get_voice_state_def Let_def\<close>)

lemma get_voice_state_after:
  "global_voice_states (snd (get_voice_state e voice st)) voice =
     Some (fst (get_voice_state e voice st))"
  "global_model st = Some m \<Longrightarrow> global_model (snd (get_voice_state e voice st)) = Some m"
  "calls (snd (get_voice_state e voice st)) =
     calls st @ (if global_voice_states st voice = None
                 then (if global_model st = None then [Load_model] else []) @ [Get_state voice]
                 else [])"
  by (cases "global_voice_states st voice";
      simp add: get_voice_state_hit get_voice_state_miss get_model_after get_model_loaded)+

lemma strip_Nil: "strip [] = []"
  by (simp add: strip_def)

lemma text_to_speech_valid:
  assumes "strip text \<noteq> []" "voice \<in> set VOICES"
  shows "text_to_speech e st text voice =
     (case generate_streaming_wav (float_mul e)
            (generate_audio_stream (fst (get_model e st))
               (fst (get_voice_state e voice (snd (get_model e st)))) (strip text))
            (sample_rate (fst (get_model e st))) of
        (body, err) \<Rightarrow>
          (Inr (StreamingResponse body err ''audio/wav''),
           (snd (get_voice_state e voice (snd (get_model e st))))
             \<lparr>calls := calls (snd (get_voice_state e voice (snd (get_model e st))))
                @ [Generate (fst (get_voice_state e voice (snd (get_model e st)))) (strip text)]\<rparr>))"
proof -
  from assms(1) have "text \<noteq> []" using strip_Nil by auto
  with assms show ?thesis
    by (simp add: text_to_speech_def Let_def case_prod_unfold)
qed

lemma text_to_speech_invalid:
  "strip text = [] \<Longrightarrow>
     text_to_speech e st text voice = (Inl (HTTPException 400 ''Text cannot be empty''), st)"
  "strip text \<noteq> [] \<Longrightarrow> voice \<notin> set VOICES \<Longrightarrow>
     text_to_speech e st text voice = (Inl (HTTPException 400 (invalid_voice_detail voice)), st)"
  using strip_Nil by (auto simp: text_to_speech_def)

lemma text_to_speech_streams:
  assumes "text_to_speech e st text voice = (Inr (StreamingResponse body None mt), st')"
  shows "\<exists>m vs cs. global_model st' = Some m \<and> global_voice_states st' voice = Some vs \<and>
           generate_streaming_wav (float_mul e) (generate_audio_stream m vs (strip text))
             (sample_rate m) = (body, None) \<and>
           calls st' = calls st @ cs \<and> Next_frame \<notin> set cs"
proof -
  have v: "strip text \<noteq> []" "voice \<in> set VOICES"
    using assms text_to_speech_invalid(1) [of "text" e st voice]
      text_to_speech_invalid(2) [of "text" voice e st] by auto
  let ?m = "fst (get_model e st)"
  let ?st1 = "snd (get_model e st)"
  let ?vs = "fst (get_voice_state e voice ?st1)"
  let ?st2 = "snd (get_voice_state e voice ?st1)"
  from assms text_to_speech_valid [OF v, of e st]
  have g: "generate_streaming_wav (float_mul e) (generate_audio_stream ?m ?vs (strip text))
              (sample_rate ?m) = (body, None)"
    and s: "st' = ?st2\<lparr>calls := calls ?st2 @ [Generate ?vs (strip text)]\<rparr>"
    by (auto split: prod.splits)
  have m: "global_model st' = Some ?m"
    unfolding s using get_voice_state_after(2) [OF get_model_after(1)] by simp
  have vs: "global_voice_states st' voice = Some ?vs"
    unfolding s using get_voice_state_after(1) by simp
  have c: "calls st' = calls st @ ((if global_model st = None then [Load_model] else [])
      @ (if global_voice_states ?st1 voice = None
         then (if global_model ?st1 = None then [Load_model] else []) @ [Get_state voice]
         else []) @ [Generate ?vs (strip text)])"
    unfolding s by (simp add: get_voice_state_after(3) get_model_after(3))
  from m vs g c show ?thesis
    by (intro exI conjI) (assumption+, simp)
qed

section \<open>The raw socket handler\<close>

lemma handle_client_ok:
  assumes "handle_client mul m vstates data = (vstates', evs, None)"
  shows "\<exists>header vs pre.
      raw_make_wav_header (sample_rate m) = Inr header \<and> length header = 44 \<and>
      0 \<le> sample_rate m \<and> vstates' (fst (parse_request data)) = Some vs \<and>
      (pre = [] \<or> pre = [Get_state (fst (parse_request data))]) \<and>
      evs = pre @ [Sendall header, Generate vs (snd (parse_request data))]
              @ send_chunks mul (generate_audio_stream m vs (snd (parse_request data)))
              @ [Sendall (replicate (nat (2 * (sample_rate m div 5))) 0), Close]"
proof -
  obtain voice tx where p: "parse_request data = (voice, tx)" by (cases "parse_request data")
  from assms obtain header where h: "raw_make_wav_header (sample_rate m) = Inr header"
    by (auto simp: handle_client_def Let_def p split: sum.splits option.splits)
  then have h': "make_wav_header (sample_rate m) 1 16 = Inr header"
    by (simp add: raw_make_wav_header_eq)
  from make_wav_header_nonneg [OF h'] have sr: "0 \<le> sample_rate m" "sample_rate m < 2 ^ 31"
    by simp_all
  from make_wav_header_mono_ok [OF sr] h' have l: "length header = 44" by simp
  show ?thesis
  proof (cases "vstates voice")
    case None
    with assms h sr l show ?thesis
      by (auto simp: handle_client_def Let_def p py_bytes_def silence_samples_nonneg mult.commute
          split: if_splits)
  next
    case (Some v)
    with assms h sr l show ?thesis
      by (auto simp: handle_client_def Let_def p py_bytes_def silence_samples_nonneg mult.commute
          split: if_splits)
  qed
qed

lemma Next_frame_first_stream:
  "takeWhile (\<lambda>e. e \<noteq> Next_frame) (Yield h # stream_chunks mul cs @ rest) = [Yield h]"
  by (cases cs) simp_all

text \<open>
  C1. For every successful streaming request, on the HTTP endpoint and on the raw socket,
  the blocks handed to the client are: the 44-byte streaming header, then the PCM
  encoding of each frame in the order the engine yields them, then the trailing
  silence; and the header is out before the first pull on the engine's lazy sequence
  (the handler of \<open>/tts\<close> itself pulls no frame).
\<close>

theorem streaming_output_order:
  "(generate_streaming_wav mul chunks sr = (evs, None) \<longrightarrow>
      (\<exists>header. make_wav_header sr 1 16 = Inr header \<and> length header = 44 \<and>
         takeWhile (\<lambda>e. e \<noteq> Next_frame) evs = [Yield header] \<and>
         yields evs = header # map (pcm_from_chunk mul) chunks
                        @ [replicate (nat (silence_samples sr * 2)) 0])) \<and>
   (text_to_speech e st text voice = (Inr (StreamingResponse body None mt), st') \<longrightarrow>
      (\<exists>m vs header cs.
         global_model st' = Some m \<and> global_voice_states st' voice = Some vs \<and>
         calls st' = calls st @ cs \<and> Next_frame \<notin> set cs \<and>
         make_wav_header (sample_rate m) 1 16 = Inr header \<and> length header = 44 \<and>
         takeWhile (\<lambda>e. e \<noteq> Next_frame) body = [Yield header] \<and>
         yields body = header # map (pcm_from_chunk (float_mul e))
                                  (generate_audio_stream m vs (strip text))
                         @ [replicate (nat (silence_samples (sample_rate m) * 2)) 0])) \<and>
   (handle_client mul m vstates data = (vstates', evs', None) \<longrightarrow>
      (\<exists>vs header.
         vstates' (fst (parse_request data)) = Some vs \<and>
         raw_make_wav_header (sample_rate m) = Inr header \<and> length header = 44 \<and>
         (\<exists>pre post. evs' = pre @ Sendall header # post \<and> Next_frame \<notin> set pre \<and>
            yields pre = []) \<and>
         yields evs' = header # map (pcm_from_chunk mul)
                                  (generate_audio_stream m vs (snd (parse_request data)))
                         @ [replicate (nat (silence_samples (sample_rate m) * 2)) 0]))"
proof (intro conjI impI)
  assume "generate_streaming_wav mul chunks sr = (evs, None)"
  from generate_streaming_wav_ok [OF this] obtain header where
    h: "make_wav_header sr 1 16 = Inr header" "length header = 44" "0 \<le> sr"
    and e: "evs = Yield header # stream_chunks mul chunks
                    @ [Yield (replicate (nat (2 * (sr div 5))) 0)]"
    by blast
  have "takeWhile (\<lambda>e. e \<noteq> Next_frame) evs = [Yield header]"
    unfolding e by (rule Next_frame_first_stream)
  moreover have "yields evs = header # map (pcm_from_chunk mul) chunks
                        @ [replicate (nat (silence_samples sr * 2)) 0]"
    unfolding e using h(3)
    by (simp add: yields_append yields_stream_chunks silence_samples_nonneg mult.commute)
  ultimately show "\<exists>header. make_wav_header sr 1 16 = Inr header \<and> length header = 44 \<and>
         takeWhile (\<lambda>e. e \<noteq> Next_frame) evs = [Yield header] \<and>
         yields evs = header # map (pcm_from_chunk mul) chunks
                        @ [replicate (nat (silence_samples sr * 2)) 0]"
    using h by blast
next
  assume "text_to_speech e st text voice = (Inr (StreamingResponse body None mt), st')"
  from text_to_speech_streams [OF this] obtain m vs cs where
    a: "global_model st' = Some m" "global_voice_states st' voice = Some vs"
      "calls st' = calls st @ cs" "Next_frame \<notin> set cs"
    and g: "generate_streaming_wav (float_mul e) (generate_audio_stream m vs (strip text))
             (sample_rate m) = (body, None)"
    by blast
  from generate_streaming_wav_ok [OF g] obtain header where
    h: "make_wav_header (sample_rate m) 1 16 = Inr header" "length header = 44"
      "0 \<le> sample_rate m"
    and e: "body = Yield header # stream_chunks (float_mul e)
                     (generate_audio_stream m vs (strip text))
                    @ [Yield (replicate (nat (2 * (sample_rate m div 5))) 0)]"
    by blast
  have "takeWhile (\<lambda>e. e \<noteq> Next_frame) body = [Yield header]"
    unfolding e by (rule Next_frame_first_stream)
  moreover have "yields body = header # map (pcm_from_chunk (float_mul e))
                                  (generate_audio_stream m vs (strip text))
                         @ [replicate (nat (silence_samples (sample_rate m) * 2)) 0]"
    unfolding e using h(3)
    by (simp add: yields_append yields_stream_chunks silence_samples_nonneg mult.commute)
  ultimately show "\<exists>m vs header cs.
         global_model st' = Some m \<and> global_voice_states st' voice = Some vs \<and>
         calls st' = calls st @ cs \<and> Next_frame \<notin> set cs \<and>
         make_wav_header (sample_rate m) 1 16 = Inr header \<and> length header = 44 \<and>
         takeWhile (\<lambda>e. e \<noteq> Next_frame) body = [Yield header] \<and>
         yields body = header # map (pcm_from_chunk (float_mul e))
                                  (generate_audio_stream m vs (strip text))
                         @ [replicate (nat (silence_samples (sample_rate m) * 2)) 0]"
    using a h by blast
next
  assume "handle_client mul m vstates data = (vstates', evs', None)"
  from handle_client_ok [OF this] obtain header vs pre where
    h: "raw_make_wav_header (sample_rate m) = Inr header" "length header = 44"
      "0 \<le> sample_rate m" "vstates' (fst (parse_request data)) = Some vs"
    and p: "pre = [] \<or> pre = [Get_state (fst (parse_request data))]"
    and e: "evs' = pre @ [Sendall header, Generate vs (snd (parse_request data))]
              @ send_chunks mul (generate_audio_stream m vs (snd (parse_request data)))
              @ [Sendall (replicate (nat (2 * (sample_rate m div 5))) 0), Close]"
    by blast
  from p have pp: "Next_frame \<notin> set pre" "yields pre = []" by auto
  from e have "evs' = pre @ Sendall header # (Generate vs (snd (parse_request data))
              # send_chunks mul (generate_audio_stream m vs (snd (parse_request data)))
              @ [Sendall (replicate (nat (2 * (sample_rate m div 5))) 0), Close])"
    by simp
  with pp have x: "\<exists>pre post. evs' = pre @ Sendall header # post \<and> Next_frame \<notin> set pre \<and>
            yields pre = []" by blast
  have "yields evs' = header # map (pcm_from_chunk mul)
                                  (generate_audio_stream m vs (snd (parse_request data)))
                         @ [replicate (nat (silence_samples (sample_rate m) * 2)) 0]"
    unfolding e using h(3) pp(2)
    by (simp add: yields_append yields_send_chunks silence_samples_nonneg mult.commute)
  with x h show "\<exists>vs header.
         vstates' (fst (parse_request data)) = Some vs \<and>
         raw_make_wav_header (sample_rate m) = Inr header \<and> length header = 44 \<and>
         (\<exists>pre post. evs' = pre @ Sendall header # post \<and> Next_frame \<notin> set pre \<and>
            yields pre = []) \<and>
         yields evs' = header # map (pcm_from_chunk mul)
                                  (generate_audio_stream m vs (snd (parse_request data)))
                         @ [replicate (nat (silence_samples (sample_rate m) * 2)) 0]"
    by blast
qed

section \<open>Evaluating the stand-in engine\<close>

lemma demo_pcm:
  "pcm_from_chunk (*) [1, - 3] = [255, 127, 1, 128]"
  "pcm_from_chunk (*) [1 / 2] = [255, 63]"
  by (simp_all add: pcm_from_chunk_def tobytes_def short_def trunc_toward_zero_def clamp_def
        drop_bit_eq_div)

lemma demo_stream:
  "generate_streaming_wav (*) [[1, - 3], [1 / 2]] 24000 =
     ([Yield demo_header, Next_frame, Yield [255, 127, 1, 128], Next_frame, Yield [255, 63],
       Next_frame, Yield (replicate 9600 0)], None)"
  by (simp add: generate_streaming_wav_def demo_header_eq py_bytes_def silence_samples_nonneg
      demo_pcm)

lemma strip_demo: "strip ''Hi'' = ''Hi''"
  by (simp add: strip_def isspace_def)

lemma demo_tts:
  "text_to_speech demo_env init_daemon ''Hi'' ''alba'' =
     (Inr (StreamingResponse
        [Yield demo_header, Next_frame, Yield [255, 127, 1, 128], Next_frame, Yield [255, 63],
         Next_frame, Yield (replicate 9600 0)] None ''audio/wav''),
      \<lparr>global_model = Some demo_model, global_voice_states = [''alba'' \<mapsto> ''alba''],
       calls = [Load_model, Get_state ''alba'', Generate ''alba'' ''Hi'']\<rparr>)"
  by (simp add: text_to_speech_def strip_demo VOICES_def get_model_def get_voice_state_def
      init_daemon_def demo_env_def demo_model_def demo_stream Let_def)

lemma demo_raw:
  "handle_client (*) demo_model Map.empty ''marius\<newline>Hello'' =
     ([''marius'' \<mapsto> ''marius''],
      [Get_state ''marius'', Sendall demo_header, Generate ''marius'' ''Hello'',
       Next_frame, Sendall [255, 127, 1, 128], Next_frame, Sendall [255, 63], Next_frame,
       Sendall (replicate 9600 0), Close], None)"
  apply (simp add: handle_client_def parse_request_def strip_def isspace_def Let_def
      demo_model_def raw_make_wav_header_eq demo_header_eq py_bytes_def silence_samples_nonneg)
  apply (simp add: tobytes_def short_def trunc_toward_zero_def clamp_def drop_bit_eq_div)
  done

theorem streaming_output_order_witness:
  "(\<exists>evs :: string event list.
      generate_streaming_wav (*) [[1, - 3], [1 / 2]] 24000 = (evs, None) \<and>
      takeWhile (\<lambda>e. e \<noteq> Next_frame) evs = [Yield demo_header] \<and>
      yields evs = [demo_header, [255, 127, 1, 128], [255, 63], replicate 9600 0]) \<and>
   (\<exists>body st'.
      text_to_speech demo_env init_daemon ''Hi'' ''alba'' =
        (Inr (StreamingResponse body None ''audio/wav''), st') \<and>
      calls st' = [Load_model, Get_state ''alba'', Generate ''alba'' ''Hi''] \<and>
      takeWhile (\<lambda>e. e \<noteq> Next_frame) body = [Yield demo_header] \<and>
      yields body = [demo_header, [255, 127, 1, 128], [255, 63], replicate 9600 0]) \<and>
   (\<exists>vstates' evs.
      handle_client (*) demo_model Map.empty ''marius\<newline>Hello'' =
        (vstates', evs, None) \<and>
      vstates' ''marius'' = Some ''marius'' \<and>
      yields evs = [demo_header, [255, 127, 1, 128], [255, 63], replicate 9600 0])"
proof -
  note t1 = streaming_output_order [THEN conjunct1, rule_format, OF demo_stream]
  note t2 = streaming_output_order [THEN conjunct2, THEN conjunct1, rule_format, OF demo_tts]
  note t3 = streaming_output_order [THEN conjunct2, THEN conjunct2, rule_format, OF demo_raw]
  have s: "nat (silence_samples 24000 * 2) = 9600"
    by (simp add: silence_samples_nonneg)
  from t1 have a: "\<exists>evs :: string event list.
      generate_streaming_wav (*) [[1, - 3], [1 / 2]] 24000 = (evs, None) \<and>
      takeWhile (\<lambda>e. e \<noteq> Next_frame) evs = [Yield demo_header] \<and>
      yields evs = [demo_header, [255, 127, 1, 128], [255, 63], replicate 9600 0]"
    by (simp add: demo_stream)
  from t2 have b: "\<exists>body st'.
      text_to_speech demo_env init_daemon ''Hi'' ''alba'' =
        (Inr (StreamingResponse body None ''audio/wav''), st') \<and>
      calls st' = [Load_model, Get_state ''alba'', Generate ''alba'' ''Hi''] \<and>
      takeWhile (\<lambda>e. e \<noteq> Next_frame) body = [Yield demo_header] \<and>
      yields body = [demo_header, [255, 127, 1, 128], [255, 63], replicate 9600 0]"
    by (simp add: demo_tts)
  from t3 have c: "\<exists>vstates' evs.
      handle_client (*) demo_model Map.empty ''marius\<newline>Hello'' =
        (vstates', evs, None) \<and>
      vstates' ''marius'' = Some ''marius'' \<and>
      yields evs = [demo_header, [255, 127, 1, 128], [255, 63], replicate 9600 0]"
    by (simp add: demo_raw)
  from a b c show ?thesis by blast
qed

section \<open>The buffered endpoint\<close>

lemma wave_write_ok:
  assumes "0 < sr" "sr < 2 ^ 31" "36 + int (length data) < 2 ^ 32"
  shows "wave_write sr data =
     Inr ((encode_ascii ''RIFF'' @ le_bytes 4 (36 + int (length data)) @ encode_ascii ''WAVE''
          @ encode_ascii ''fmt '' @ le_bytes 4 16 @ le_bytes 2 1 @ le_bytes 2 1
          @ le_bytes 4 sr @ le_bytes 4 (sr * 1 * 16 div 8) @ le_bytes 2 (1 * 16 div 8)
          @ le_bytes 2 16 @ encode_ascii ''data'' @ le_bytes 4 (int (length data))) @ data)"
  using assms unfolding wave_write_def Let_def
  by (simp del: le_bytes.simps add: mult.commute)

lemma wave_write_layout:
  assumes "0 < sr" "sr < 2 ^ 31" "36 + int (length data) < 2 ^ 32"
  shows "\<exists>h. wave_write sr data = Inr (h @ data) \<and>
           header_layout h (36 + int (length data)) 1 sr (int (length data))"
proof -
  have b: "0 \<le> sr" "sr < 256 ^ 4" "sr * 2 < 256 ^ 4" "0 \<le> int (length data)"
    "int (length data) < 256 ^ 4" "36 + int (length data) < 256 ^ 4"
    using assms by simp_all
  have "header_layout (encode_ascii ''RIFF'' @ le_bytes 4 (36 + int (length data))
          @ encode_ascii ''WAVE''
          @ encode_ascii ''fmt '' @ le_bytes 4 16 @ le_bytes 2 1 @ le_bytes 2 1
          @ le_bytes 4 sr @ le_bytes 4 (sr * 1 * 16 div 8) @ le_bytes 2 (1 * 16 div 8)
          @ le_bytes 2 16 @ encode_ascii ''data'' @ le_bytes 4 (int (length data)))
        (36 + int (length data)) 1 sr (int (length data))"
    unfolding header_layout_def using b
    by (simp add: header_slices le_uint_le_bytes length_le_bytes length_encode_ascii
        del: le_bytes.simps)
  with wave_write_ok [OF assms] show ?thesis by blast
qed

lemma wave_write_fails:
  "sr \<le> 0 \<Longrightarrow> wave_write sr data = Inl WaveError"
  "0 < sr \<Longrightarrow> 2 ^ 32 \<le> 36 + int (length data) \<Longrightarrow> wave_write sr data = Inl StructError"
  "2 ^ 31 \<le> sr \<Longrightarrow> wave_write sr data = Inl StructError"
  by (simp_all add: wave_write_def Let_def)

lemma wave_write_cases:
  "wave_write sr data = Inl WaveError \<or> wave_write sr data = Inl StructError \<or>
   (\<exists>h. wave_write sr data = Inr (h @ data) \<and> length h = 44 \<and> 0 < sr \<and> sr < 2 ^ 31 \<and>
      36 + int (length data) < 2 ^ 32 \<and>
      header_layout h (36 + int (length data)) 1 sr (int (length data)))"
proof -
  consider "sr \<le> 0" | "0 < sr" "2 ^ 32 \<le> 36 + int (length data)" | "2 ^ 31 \<le> sr"
    | "0 < sr" "sr < 2 ^ 31" "36 + int (length data) < 2 ^ 32"
    by linarith
  then show ?thesis
  proof cases
    case 4
    from wave_write_layout [OF 4] 4 show ?thesis
      by (auto simp: header_layout_def)
  qed (simp_all add: wave_write_fails)
qed

lemma text_to_speech_buffered_valid:
  assumes "strip text \<noteq> []" "voice \<in> set VOICES"
  shows "text_to_speech_buffered e st text voice =
     (let m = fst (get_model e st);
          st2 = snd (get_voice_state e voice (snd (get_model e st)));
          vs = fst (get_voice_state e voice (snd (get_model e st)));
          audio_chunks = generate_audio_stream m vs (strip text);
          st3 = st2\<lparr>calls := calls st2 @ Generate vs (strip text)
                                    # replicate (length audio_chunks + 1) Next_frame\<rparr>
      in if audio_chunks = [] then (Inl (HTTPException 500 ''No audio generated''), st3)
         else case wave_write (sample_rate m)
                     (tobytes (map (\<lambda>x. short (float_mul e (clamp (- 1) 1 x) 32767))
                                (concat audio_chunks))) of
                Inl x \<Rightarrow> (Inl x, st3)
              | Inr buffer \<Rightarrow> (Inr (StreamingResponse [Yield buffer] None ''audio/wav''), st3))"
proof -
  from assms(1) have "text \<noteq> []" using strip_Nil by auto
  with assms show ?thesis
    by (simp add: text_to_speech_buffered_def Let_def case_prod_unfold)
qed

lemma text_to_speech_buffered_invalid:
  "strip text = [] \<Longrightarrow>
     text_to_speech_buffered e st text voice =
       (Inl (HTTPException 400 ''Text cannot be empty''), st)"
  "strip text \<noteq> [] \<Longrightarrow> voice \<notin> set VOICES \<Longrightarrow>
     text_to_speech_buffered e st text voice =
       (Inl (HTTPException 400 (invalid_voice_detail voice)), st)"
  using strip_Nil by (auto simp: text_to_speech_buffered_def)

lemma pcm_concat:
  "tobytes (map (\<lambda>x. short (mul (clamp (- 1) 1 x) 32767)) (concat cs)) =
     concat (map (pcm_from_chunk mul) cs)"
  by (induction cs) (simp_all add: pcm_from_chunk_def tobytes_def)

lemma text_to_speech_buffered_ok:
  assumes "text_to_speech_buffered e st text voice = (Inr (StreamingResponse body err mt), st')"
  shows "\<exists>m vs h. global_model st' = Some m \<and> global_voice_states st' voice = Some vs \<and>
     generate_audio_stream m vs (strip text) \<noteq> [] \<and> err = None \<and> mt = ''audio/wav'' \<and>
     0 < sample_rate m \<and> sample_rate m < 2 ^ 31 \<and>
     36 + 2 * int (length (concat (generate_audio_stream m vs (strip text)))) < 2 ^ 32 \<and>
     header_layout h (36 + 2 * int (length (concat (generate_audio_stream m vs (strip text)))))
       1 (sample_rate m) (2 * int (length (concat (generate_audio_stream m vs (strip text))))) \<and>
     body = [Yield (h @ concat (map (pcm_from_chunk (float_mul e))
                                  (generate_audio_stream m vs (strip text))))]"
proof -
  have v: "strip text \<noteq> []" "voice \<in> set VOICES"
    using assms text_to_speech_buffered_invalid(1) [of "text" e st voice]
      text_to_speech_buffered_invalid(2) [of "text" voice e st] by auto
  let ?m = "fst (get_model e st)"
  let ?st1 = "snd (get_model e st)"
  let ?vs = "fst (get_voice_state e voice ?st1)"
  let ?st2 = "snd (get_voice_state e voice ?st1)"
  let ?cs = "generate_audio_stream ?m ?vs (strip text)"
  let ?data = "tobytes (map (\<lambda>x. short (float_mul e (clamp (- 1) 1 x) 32767)) (concat ?cs))"
  note t = assms [unfolded text_to_speech_buffered_valid [OF v] Let_def]
  from t have ne: "?cs \<noteq> []" by (auto split: if_splits)
  from t ne have s: "st' = ?st2\<lparr>calls := calls ?st2 @ Generate ?vs (strip text)
                                    # replicate (length ?cs + 1) Next_frame\<rparr>"
    by (auto split: sum.splits)
  from t ne obtain buffer where w: "wave_write (sample_rate ?m) ?data = Inr buffer"
    and b: "body = [Yield buffer]" "err = None" "mt = ''audio/wav''"
    by (auto split: sum.splits)
  have ld: "int (length ?data) = 2 * int (length (concat ?cs))"
    by (simp add: length_tobytes)
  from wave_write_cases [of "sample_rate ?m" ?data] w obtain h where
    h: "buffer = h @ ?data" "0 < sample_rate ?m" "sample_rate ?m < 2 ^ 31"
      "36 + int (length ?data) < 2 ^ 32"
      "header_layout h (36 + int (length ?data)) 1 (sample_rate ?m) (int (length ?data))"
    by auto
  have m: "global_model st' = Some ?m"
    unfolding s using get_voice_state_after(2) [OF get_model_after(1)] by simp
  have vs: "global_voice_states st' voice = Some ?vs"
    unfolding s using get_voice_state_after(1) by simp
  from h(1) b(1) have bd: "body = [Yield (h @ concat (map (pcm_from_chunk (float_mul e)) ?cs))]"
    by (simp add: pcm_concat)
  from m vs ne b(2,3) h(2,3) h(4,5) [unfolded ld] bd show ?thesis
    by blast
qed

lemma stream_tail:
  assumes "generate_streaming_wav mul cs sr = (evs, None)"
  shows "0 \<le> sr \<and> silence_samples sr = sr div 5 \<and>
     last evs = Yield (replicate (2 * nat (sr div 5)) 0) \<and>
     length (yields evs) = length cs + 2 \<and>
     (\<exists>header. length header = 44 \<and>
        concat (yields evs) =
          header @ concat (map (pcm_from_chunk mul) cs) @ replicate (2 * nat (sr div 5)) 0)"
proof -
  from generate_streaming_wav_ok [OF assms] obtain header where
    h: "length header = 44" "0 \<le> sr"
    and e: "evs = Yield header # stream_chunks mul cs
                    @ [Yield (replicate (nat (2 * (sr div 5))) 0)]"
    by blast
  from h(2) have n: "nat (2 * (sr div 5)) = 2 * nat (sr div 5)"
    by (simp add: nat_mult_distrib)
  from h show ?thesis
    unfolding e n
    by (auto simp: yields_append yields_stream_chunks silence_samples_nonneg)
qed

section \<open>Trailing silence\<close>

text \<open>
  C3 (as amended). Every successful streaming response, on \<open>/tts\<close> and on the raw
  socket, ends with exactly one trailing silence block of \<open>int(sampleRate * 0.2)\<close>
  zero-valued 16-bit samples, that is \<open>sampleRate div 5\<close> samples (truncation; 4800 at
  24000 Hz): the last block sent is that many pairs of zero bytes, one block is sent per
  frame besides the header and the silence, and the bytes of the response are the 44
  header bytes, the PCM bytes and the silence bytes. A successful response of
  \<open>/tts/buffered\<close> carries no silence block: its single body is the 44-byte header
  followed by the PCM bytes.
\<close>

theorem trailing_silence:
  "(generate_streaming_wav mul chunks sr = (evs, None) \<longrightarrow>
      0 \<le> sr \<and> silence_samples sr = sr div 5 \<and>
      last evs = Yield (replicate (2 * nat (sr div 5)) 0) \<and>
      length (yields evs) = length chunks + 2 \<and>
      (\<exists>header. length header = 44 \<and>
         concat (yields evs) =
           header @ concat (map (pcm_from_chunk mul) chunks)
             @ replicate (2 * nat (sr div 5)) 0)) \<and>
   (text_to_speech e st text voice = (Inr (StreamingResponse body None mt), st') \<longrightarrow>
      (\<exists>m vs header.
         global_model st' = Some m \<and> global_voice_states st' voice = Some vs \<and>
         last body = Yield (replicate (2 * nat (sample_rate m div 5)) 0) \<and>
         length (yields body) = length (generate_audio_stream m vs (strip text)) + 2 \<and>
         length header = 44 \<and>
         concat (yields body) =
           header @ concat (map (pcm_from_chunk (float_mul e))
                              (generate_audio_stream m vs (strip text)))
             @ replicate (2 * nat (sample_rate m div 5)) 0)) \<and>
   (handle_client mul m vstates data = (vstates', evs', None) \<longrightarrow>
      (\<exists>vs pre header.
         vstates' (fst (parse_request data)) = Some vs \<and>
         evs' = pre @ [Sendall (replicate (2 * nat (sample_rate m div 5)) 0), Close] \<and>
         length (yields evs') =
           length (generate_audio_stream m vs (snd (parse_request data))) + 2 \<and>
         length header = 44 \<and>
         concat (yields evs') =
           header @ concat (map (pcm_from_chunk mul)
                              (generate_audio_stream m vs (snd (parse_request data))))
             @ replicate (2 * nat (sample_rate m div 5)) 0)) \<and>
   (text_to_speech_buffered e st text voice = (Inr (StreamingResponse body2 err mt2), st2) \<longrightarrow>
      (\<exists>m vs header.
         global_model st2 = Some m \<and> global_voice_states st2 voice = Some vs \<and>
         length header = 44 \<and>
         body2 = [Yield (header @ concat (map (pcm_from_chunk (float_mul e))
                                            (generate_audio_stream m vs (strip text))))]))"
proof (intro conjI impI)
  assume a: "generate_streaming_wav mul chunks sr = (evs, None)"
  from stream_tail [OF a]
  show "0 \<le> sr" "silence_samples sr = sr div 5"
    "last evs = Yield (replicate (2 * nat (sr div 5)) 0)"
    "length (yields evs) = length chunks + 2"
    "\<exists>header. length header = 44 \<and>
         concat (yields evs) =
           header @ concat (map (pcm_from_chunk mul) chunks)
             @ replicate (2 * nat (sr div 5)) 0"
    by blast+
next
  assume "text_to_speech e st text voice = (Inr (StreamingResponse body None mt), st')"
  from text_to_speech_streams [OF this] obtain m vs where
    a: "global_model st' = Some m" "global_voice_states st' voice = Some vs"
    and g: "generate_streaming_wav (float_mul e) (generate_audio_stream m vs (strip text))
             (sample_rate m) = (body, None)"
    by blast
  from stream_tail [OF g] a
  show "\<exists>m vs header.
         global_model st' = Some m \<and> global_voice_states st' voice = Some vs \<and>
         last body = Yield (replicate (2 * nat (sample_rate m div 5)) 0) \<and>
         length (yields body) = length (generate_audio_stream m vs (strip text)) + 2 \<and>
         length header = 44 \<and>
         concat (yields body) =
           header @ concat (map (pcm_from_chunk (float_mul e))
                              (generate_audio_stream m vs (strip text)))
             @ replicate (2 * nat (sample_rate m div 5)) 0"
    by blast
next
  assume "handle_client mul m vstates data = (vstates', evs', None)"
  from handle_client_ok [OF this] obtain header vs pre where
    h: "length header = 44" "0 \<le> sample_rate m"
      "vstates' (fst (parse_request data)) = Some vs"
    and p: "pre = [] \<or> pre = [Get_state (fst (parse_request data))]"
    and e: "evs' = pre @ [Sendall header, Generate vs (snd (parse_request data))]
              @ send_chunks mul (generate_audio_stream m vs (snd (parse_request data)))
              @ [Sendall (replicate (nat (2 * (sample_rate m div 5))) 0), Close]"
    by blast
  from h(2) have n: "nat (2 * (sample_rate m div 5)) = 2 * nat (sample_rate m div 5)"
    by (simp add: nat_mult_distrib)
  from p have pp: "yields pre = []" by auto
  let ?pre = "pre @ [Sendall header, Generate vs (snd (parse_request data))]
              @ send_chunks mul (generate_audio_stream m vs (snd (parse_request data)))"
  have 1: "evs' = ?pre @ [Sendall (replicate (2 * nat (sample_rate m div 5)) 0), Close]"
    unfolding e n by simp
  have 2: "length (yields evs') =
           length (generate_audio_stream m vs (snd (parse_request data))) + 2"
    unfolding e by (simp add: yields_append yields_send_chunks pp)
  have 3: "concat (yields evs') =
           header @ concat (map (pcm_from_chunk mul)
                              (generate_audio_stream m vs (snd (parse_request data))))
             @ replicate (2 * nat (sample_rate m div 5)) 0"
    unfolding e n by (simp add: yields_append yields_send_chunks pp)
  from h(1,3) 1 2 3
  show "\<exists>vs pre header.
         vstates' (fst (parse_request data)) = Some vs \<and>
         evs' = pre @ [Sendall (replicate (2 * nat (sample_rate m div 5)) 0), Close] \<and>
         length (yields evs') =
           length (generate_audio_stream m vs (snd (parse_request data))) + 2 \<and>
         length header = 44 \<and>
         concat (yields evs') =
           header @ concat (map (pcm_from_chunk mul)
                              (generate_audio_stream m vs (snd (parse_request data))))
             @ replicate (2 * nat (sample_rate m div 5)) 0"
    by blast
next
  assume "text_to_speech_buffered e st text voice =
            (Inr (StreamingResponse body2 err mt2), st2)"
  from text_to_speech_buffered_ok [OF this]
  show "\<exists>m vs header.
         global_model st2 = Some m \<and> global_voice_states st2 voice = Some vs \<and>
         length header = 44 \<and>
         body2 = [Yield (header @ concat (map (pcm_from_chunk (float_mul e))
                                            (generate_audio_stream m vs (strip text))))]"
    by (auto simp: header_layout_def)
qed

lemma demo_buffered:
  "text_to_speech_buffered demo_env init_daemon ''Hi'' ''alba'' =
     (Inr (StreamingResponse
        [Yield [82, 73, 70, 70, 42, 0, 0, 0, 87, 65, 86, 69, 102, 109, 116, 32, 16, 0, 0, 0,
                1, 0, 1, 0, 192, 93, 0, 0, 128, 187, 0, 0, 2, 0, 16, 0, 100, 97, 116, 97,
                6, 0, 0, 0, 255, 127, 1, 128, 255, 63]] None ''audio/wav''),
      \<lparr>global_model = Some demo_model, global_voice_states = [''alba'' \<mapsto> ''alba''],
       calls = [Load_model, Get_state ''alba'', Generate ''alba'' ''Hi'', Next_frame,
                Next_frame, Next_frame]\<rparr>)"
  apply (simp add: text_to_speech_buffered_def strip_demo VOICES_def get_model_def
      get_voice_state_def init_daemon_def demo_env_def demo_model_def Let_def)
  apply (simp add: wave_write_def Let_def encode_ascii_def le_bytes_2 le_bytes_4 tobytes_def
      short_def trunc_toward_zero_def clamp_def drop_bit_eq_div numeral_3_eq_3
      del: le_bytes.simps)
  done

theorem trailing_silence_counterexample:
  "fst (text_to_speech_buffered demo_env init_daemon ''Hi'' ''alba'') =
     Inr (StreamingResponse
        [Yield [82, 73, 70, 70, 42, 0, 0, 0, 87, 65, 86, 69, 102, 109, 116, 32, 16, 0, 0, 0,
                1, 0, 1, 0, 192, 93, 0, 0, 128, 187, 0, 0, 2, 0, 16, 0, 100, 97, 116, 97,
                6, 0, 0, 0, 255, 127, 1, 128, 255, 63]] None ''audio/wav'') \<and>
   sample_rate (load_model demo_env) = 24000 \<and>
   spec_silence_samples 24000 * 2 = 9600 \<and>
   silence_samples 24004 = 4800 \<and> spec_silence_samples 24004 = 4801"
proof -
  have "sample_rate (load_model demo_env) = 24000"
    by (simp add: demo_env_def demo_model_def)
  moreover have "spec_silence_samples 24000 * 2 = 9600" "spec_silence_samples 24004 = 4801"
    by (simp_all add: spec_silence_samples_def round_def)
  moreover have "silence_samples 24004 = 4800"
    by (simp add: silence_samples_nonneg)
  ultimately show ?thesis
    by (simp add: demo_buffered)
qed

theorem trailing_silence_witness:
  "(\<exists>evs :: string event list.
      generate_streaming_wav (*) [[1, - 3], [1 / 2]] 24000 = (evs, None) \<and>
      last evs = Yield (replicate 9600 0) \<and> length (yields evs) = 4 \<and>
      length (concat (yields evs)) = 44 + 6 + 9600) \<and>
   silence_samples 24000 = 4800 \<and>
   (\<exists>body st'.
      text_to_speech demo_env init_daemon ''Hi'' ''alba'' =
        (Inr (StreamingResponse body None ''audio/wav''), st') \<and>
      last body = Yield (replicate 9600 0) \<and> length (yields body) = 4) \<and>
   (\<exists>vstates' pre.
      handle_client (*) demo_model Map.empty ''marius\<newline>Hello'' =
        (vstates', pre @ [Sendall (replicate 9600 0), Close], None)) \<and>
   (\<exists>body st'.
      text_to_speech_buffered demo_env init_daemon ''Hi'' ''alba'' =
        (Inr (StreamingResponse [Yield body] None ''audio/wav''), st') \<and>
      length body = 44 + 6)"
proof -
  note t1 = trailing_silence [THEN conjunct1, rule_format, OF demo_stream]
  note t2 = trailing_silence [THEN conjunct2, THEN conjunct1, rule_format, OF demo_tts]
  note t3 = trailing_silence [THEN conjunct2, THEN conjunct2, THEN conjunct1, rule_format,
      OF demo_raw]
  note t4 = trailing_silence [THEN conjunct2, THEN conjunct2, THEN conjunct2, rule_format,
      OF demo_buffered]
  from t1 have a: "\<exists>evs :: string event list.
      generate_streaming_wav (*) [[1, - 3], [1 / 2]] 24000 = (evs, None) \<and>
      last evs = Yield (replicate 9600 0) \<and> length (yields evs) = 4 \<and>
      length (concat (yields evs)) = 44 + 6 + 9600"
    by (simp add: demo_stream demo_header_def)
  from t1 have b: "silence_samples 24000 = 4800" by simp
  from t2 have c: "\<exists>body st'.
      text_to_speech demo_env init_daemon ''Hi'' ''alba'' =
        (Inr (StreamingResponse body None ''audio/wav''), st') \<and>
      last body = Yield (replicate 9600 0) \<and> length (yields body) = 4"
    by (simp add: demo_tts)
  have sr: "2 * nat (sample_rate demo_model div 5) = 9600"
    by (simp add: demo_model_def)
  from t3 obtain pre where
    p: "[Get_state ''marius'', Sendall demo_header, Generate ''marius'' ''Hello'',
         Next_frame, Sendall [255, 127, 1, 128], Next_frame, Sendall [255, 63], Next_frame,
         Sendall (replicate 9600 0), Close] = pre @ [Sendall (replicate 9600 0), Close]"
    unfolding sr by blast
  have "handle_client (*) demo_model Map.empty ''marius\<newline>Hello'' =
        ([''marius'' \<mapsto> ''marius''], pre @ [Sendall (replicate 9600 0), Close], None)"
    by (simp only: demo_raw p [symmetric])
  then have d: "\<exists>vstates' pre.
      handle_client (*) demo_model Map.empty ''marius\<newline>Hello'' =
        (vstates', pre @ [Sendall (replicate 9600 0), Close], None)"
    by blast
  from t4 have e: "\<exists>body st'.
      text_to_speech_buffered demo_env init_daemon ''Hi'' ''alba'' =
        (Inr (StreamingResponse [Yield body] None ''audio/wav''), st') \<and>
      length body = 44 + 6"
    by (simp add: demo_buffered)
  from a b c d e show ?thesis by blast
qed

section \<open>Input validation\<close>

lemma sublist_join: "x \<in> set xs \<Longrightarrow> sublist x (join sep xs)"
proof (induction sep xs rule: join.induct)
  case (3 sep a b bs)
  show ?case
  proof (cases "x = a")
    case True
    then show ?thesis by simp
  next
    case False
    with 3 have "sublist x (join sep (b # bs))" by simp
    then obtain ps ss where "join sep (b # bs) = ps @ x @ ss" by (auto simp: sublist_def)
    then have "join sep (a # b # bs) = (a @ sep @ ps) @ x @ ss" by simp
    then show ?thesis unfolding sublist_def by blast
  qed
qed simp_all

lemma detail_lists_voices:
  assumes "v \<in> set VOICES"
  shows "sublist ([CHR 0x27] @ v @ [CHR 0x27]) (invalid_voice_detail voice)"
proof -
  from assms have "[CHR 0x27] @ v @ [CHR 0x27] \<in> set (map (\<lambda>x. [CHR 0x27] @ x @ [CHR 0x27]) VOICES)"
    by (simp add: image_iff)
  from sublist_join [OF this, of "'', ''"] obtain ps ss where
    "join '', '' (map (\<lambda>x. [CHR 0x27] @ x @ [CHR 0x27]) VOICES) = ps @ ([CHR 0x27] @ v @ [CHR 0x27]) @ ss"
    by (auto simp: sublist_def)
  then have "invalid_voice_detail voice =
      (''Invalid voice '' @ [CHR 0x27] @ voice @ [CHR 0x27] @ ''. Available: '' @ ''['' @ ps)
        @ ([CHR 0x27] @ v @ [CHR 0x27]) @ (ss @ '']'')"
    by (simp add: invalid_voice_detail_def str_of_list_def)
  then show ?thesis unfolding sublist_def by blast
qed

lemma text_to_speech_not_400:
  assumes "strip text \<noteq> []" "voice \<in> set VOICES"
  shows "fst (text_to_speech e st text voice) \<noteq> Inl (HTTPException 400 d)"
  unfolding text_to_speech_valid [OF assms] by (simp split: prod.splits)

lemma wave_write_not_http: "wave_write sr data \<noteq> Inl (HTTPException c d)"
  using wave_write_cases [of sr data] by auto

lemma text_to_speech_buffered_not_400:
  assumes "strip text \<noteq> []" "voice \<in> set VOICES"
  shows "fst (text_to_speech_buffered e st text voice) \<noteq> Inl (HTTPException 400 d)"
  unfolding text_to_speech_buffered_valid [OF assms] Let_def
  using wave_write_not_http
  by (auto split: sum.splits)

lemma blank_iff: "(text = [] \<or> strip text = []) \<longleftrightarrow> strip text = []"
  using strip_Nil by auto

text \<open>
  The handlers themselves, for any text and voice they are called with: they raise an
  HTTP 400 error exactly when the text is empty or blank after trimming, or the voice
  is not one of the eight voices. The text is checked first. For an unknown voice the
  message lists every valid voice, in quotes. In both cases the process state comes
  back unchanged.
\<close>

lemma handler_validation:
  "((\<exists>d. fst (text_to_speech e st text voice) = Inl (HTTPException 400 d)) \<longleftrightarrow>
      (text = [] \<or> strip text = [] \<or> voice \<notin> set VOICES)) \<and>
   ((\<exists>d. fst (text_to_speech_buffered e st text voice) = Inl (HTTPException 400 d)) \<longleftrightarrow>
      (text = [] \<or> strip text = [] \<or> voice \<notin> set VOICES)) \<and>
   (text = [] \<or> strip text = [] \<longrightarrow>
      text_to_speech e st text voice = (Inl (HTTPException 400 ''Text cannot be empty''), st) \<and>
      text_to_speech_buffered e st text voice =
        (Inl (HTTPException 400 ''Text cannot be empty''), st)) \<and>
   (\<not> (text = [] \<or> strip text = []) \<and> voice \<notin> set VOICES \<longrightarrow>
      text_to_speech e st text voice =
        (Inl (HTTPException 400 (invalid_voice_detail voice)), st) \<and>
      text_to_speech_buffered e st text voice =
        (Inl (HTTPException 400 (invalid_voice_detail voice)), st) \<and>
      (\<forall>v \<in> set VOICES. sublist ([CHR 0x27] @ v @ [CHR 0x27]) (invalid_voice_detail voice)))"
proof -
  have 1: "(\<exists>d. fst (text_to_speech e st text voice) = Inl (HTTPException 400 d)) \<longleftrightarrow>
      (strip text = [] \<or> voice \<notin> set VOICES)"
    using text_to_speech_invalid(1) [of "text" e st voice]
      text_to_speech_invalid(2) [of "text" voice e st]
      text_to_speech_not_400 [of "text" voice e st]
    by (cases "strip text = []"; cases "voice \<in> set VOICES") auto
  have 2: "(\<exists>d. fst (text_to_speech_buffered e st text voice) = Inl (HTTPException 400 d)) \<longleftrightarrow>
      (strip text = [] \<or> voice \<notin> set VOICES)"
    using text_to_speech_buffered_invalid(1) [of "text" e st voice]
      text_to_speech_buffered_invalid(2) [of "text" voice e st]
      text_to_speech_buffered_not_400 [of "text" voice e st]
    by (cases "strip text = []"; cases "voice \<in> set VOICES") auto
  have 3: "strip text = [] \<longrightarrow>
      text_to_speech e st text voice = (Inl (HTTPException 400 ''Text cannot be empty''), st) \<and>
      text_to_speech_buffered e st text voice =
        (Inl (HTTPException 400 ''Text cannot be empty''), st)"
    using text_to_speech_invalid(1) text_to_speech_buffered_invalid(1) by blast
  have 4: "strip text \<noteq> [] \<and> voice \<notin> set VOICES \<longrightarrow>
      text_to_speech e st text voice =
        (Inl (HTTPException 400 (invalid_voice_detail voice)), st) \<and>
      text_to_speech_buffered e st text voice =
        (Inl (HTTPException 400 (invalid_voice_detail voice)), st) \<and>
      (\<forall>v \<in> set VOICES. sublist ([CHR 0x27] @ v @ [CHR 0x27]) (invalid_voice_detail voice))"
    using text_to_speech_invalid(2) text_to_speech_buffered_invalid(2) detail_lists_voices
    by blast
  from 1 2 3 4 show ?thesis
    unfolding blank_iff disj_assoc [symmetric] by blast
qed

lemma strip_blank: "strip ''   '' = []" "strip [] = []" "strip ''Hello'' = ''Hello''"
  by (simp_all add: strip_def isspace_def)

lemma handler_validation_example:
  "text_to_speech demo_env init_daemon ''   '' ''nonexistent'' =
     (Inl (HTTPException 400 ''Text cannot be empty''), init_daemon) \<and>
   text_to_speech_buffered demo_env init_daemon [] ''alba'' =
     (Inl (HTTPException 400 ''Text cannot be empty''), init_daemon) \<and>
   text_to_speech demo_env init_daemon ''Hello'' ''nonexistent'' =
     (Inl (HTTPException 400 (invalid_voice_detail ''nonexistent'')), init_daemon) \<and>
   text_to_speech_buffered demo_env init_daemon ''Hello'' ''nonexistent'' =
     (Inl (HTTPException 400 (invalid_voice_detail ''nonexistent'')), init_daemon) \<and>
   sublist ([CHR 0x27] @ ''eponine'' @ [CHR 0x27]) (invalid_voice_detail ''nonexistent'') \<and>
   (\<nexists>d. fst (text_to_speech demo_env init_daemon ''Hello'' ''alba'') = Inl (HTTPException 400 d)) \<and>
   (\<nexists>d. fst (text_to_speech_buffered demo_env init_daemon ''Hello'' ''alba'') =
      Inl (HTTPException 400 d))"
proof -
  have v: "''nonexistent'' \<notin> set VOICES" "''alba'' \<in> set VOICES" "''eponine'' \<in> set VOICES"
    by (simp_all add: VOICES_def)
  note t = handler_validation [of demo_env init_daemon]
  note t3 = t [THEN conjunct2, THEN conjunct2, THEN conjunct1, rule_format]
  note t4 = t [THEN conjunct2, THEN conjunct2, THEN conjunct2, rule_format]
  have a: "text_to_speech demo_env init_daemon ''   '' ''nonexistent'' =
     (Inl (HTTPException 400 ''Text cannot be empty''), init_daemon)"
    using t3 [of "''   ''" "''nonexistent''"] by (simp add: strip_blank)
  have b: "text_to_speech_buffered demo_env init_daemon [] ''alba'' =
     (Inl (HTTPException 400 ''Text cannot be empty''), init_daemon)"
    using t3 [of "[]" "''alba''"] by simp
  have c: "text_to_speech demo_env init_daemon ''Hello'' ''nonexistent'' =
     (Inl (HTTPException 400 (invalid_voice_detail ''nonexistent'')), init_daemon)"
    "text_to_speech_buffered demo_env init_daemon ''Hello'' ''nonexistent'' =
     (Inl (HTTPException 400 (invalid_voice_detail ''nonexistent'')), init_daemon)"
    and q: "\<forall>v \<in> set VOICES.
        sublist ([CHR 0x27] @ v @ [CHR 0x27]) (invalid_voice_detail ''nonexistent'')"
    using t4 [of "''Hello''" "''nonexistent''"] v by (simp_all add: strip_blank)
  from bspec [OF q v(3)]
  have c3: "sublist ([CHR 0x27] @ ''eponine'' @ [CHR 0x27]) (invalid_voice_detail ''nonexistent'')" .
  have d: "\<nexists>d. fst (text_to_speech demo_env init_daemon ''Hello'' ''alba'') =
      Inl (HTTPException 400 d)"
    using t [THEN conjunct1, of "''Hello''" "''alba''"] v by (simp add: strip_blank)
  have e: "\<nexists>d. fst (text_to_speech_buffered demo_env init_daemon ''Hello'' ''alba'') =
      Inl (HTTPException 400 d)"
    using t [THEN conjunct2, THEN conjunct1, of "''Hello''" "''alba''"] v
    by (simp add: strip_blank)
  from a b c c3 d e show ?thesis by blast
qed

section \<open>Requests through the framework\<close>

lemma form_value_cases:
  "form_value sent = None \<longleftrightarrow> sent = None \<or> sent = Some []"
  "form_value sent = Some s \<longleftrightarrow> sent = Some s \<and> s \<noteq> []"
  by (auto simp: form_value_def split: option.splits)

lemma form_voice_invalid:
  "form_voice sent \<notin> set VOICES \<longleftrightarrow> (\<exists>v. sent = Some v \<and> v \<noteq> [] \<and> v \<notin> set VOICES)"
  by (auto simp: form_voice_def form_value_def VOICES_def split: option.splits)

lemma form_voice_sent: "v \<noteq> [] \<Longrightarrow> form_voice (Some v) = v"
  by (simp add: form_voice_def form_value_def)

lemma post_tts_missing:
  assumes "tf = None \<or> tf = Some []"
  shows "post_tts e st tf vf = (Unprocessable_422, st)"
    "post_tts_buffered e st tf vf = (Unprocessable_422, st)"
  using assms by (auto simp: post_tts_def post_tts_buffered_def form_value_def)

lemma form_voice_default:
  "form_voice None = ''alba''" "form_voice (Some []) = ''alba''"
  "form_voice (Some ''alba'') = ''alba''"
  by (simp_all add: form_voice_def form_value_def)

lemma post_tts_default_voice:
  "post_tts e st tf None = post_tts e st tf (Some ''alba'')"
  "post_tts e st tf (Some []) = post_tts e st tf (Some ''alba'')"
  "post_tts_buffered e st tf None = post_tts_buffered e st tf (Some ''alba'')"
  "post_tts_buffered e st tf (Some []) = post_tts_buffered e st tf (Some ''alba'')"
  unfolding post_tts_def post_tts_buffered_def form_voice_default by (rule refl)+

lemma post_tts_sent:
  assumes "s \<noteq> []"
  shows "post_tts e st (Some s) vf =
      (Handled (fst (text_to_speech e st s (form_voice vf))),
       snd (text_to_speech e st s (form_voice vf)))"
    "post_tts_buffered e st (Some s) vf =
      (Handled (fst (text_to_speech_buffered e st s (form_voice vf))),
       snd (text_to_speech_buffered e st s (form_voice vf)))"
  using assms
  by (simp_all add: post_tts_def post_tts_buffered_def form_value_def case_prod_unfold Let_def)

text \<open>
  C5 (as amended). For every request to \<open>/tts\<close> or \<open>/tts/buffered\<close>: when the text
  field is missing or sent empty, the framework answers 422 and the handler does not
  run. Otherwise the handler runs, and it raises an HTTP 400 error exactly when the
  text is blank after trimming, or a voice was sent, non-empty, that is not one of the
  eight voices (a missing or empty voice field is the default voice). The text is
  checked first: for a blank text the error is the text error whatever the voice. For
  an unknown voice the message lists every valid voice, in quotes. In all three cases
  the process state comes back unchanged: no engine call, no voice-state lookup.
\<close>

theorem request_validation:
  "(fst (post_tts e st tf vf) = Unprocessable_422 \<longleftrightarrow> tf = None \<or> tf = Some []) \<and>
   (fst (post_tts_buffered e st tf vf) = Unprocessable_422 \<longleftrightarrow> tf = None \<or> tf = Some []) \<and>
   (tf = None \<or> tf = Some [] \<longrightarrow>
      post_tts e st tf vf = (Unprocessable_422, st) \<and>
      post_tts_buffered e st tf vf = (Unprocessable_422, st)) \<and>
   ((\<exists>d. fst (post_tts e st tf vf) = Handled (Inl (HTTPException 400 d))) \<longleftrightarrow>
      (\<exists>s. tf = Some s \<and> s \<noteq> [] \<and>
         (strip s = [] \<or> (\<exists>v. vf = Some v \<and> v \<noteq> [] \<and> v \<notin> set VOICES)))) \<and>
   ((\<exists>d. fst (post_tts_buffered e st tf vf) = Handled (Inl (HTTPException 400 d))) \<longleftrightarrow>
      (\<exists>s. tf = Some s \<and> s \<noteq> [] \<and>
         (strip s = [] \<or> (\<exists>v. vf = Some v \<and> v \<noteq> [] \<and> v \<notin> set VOICES)))) \<and>
   (\<forall>s. tf = Some s \<and> s \<noteq> [] \<and> strip s = [] \<longrightarrow>
      post_tts e st tf vf = (Handled (Inl (HTTPException 400 ''Text cannot be empty'')), st) \<and>
      post_tts_buffered e st tf vf =
        (Handled (Inl (HTTPException 400 ''Text cannot be empty'')), st)) \<and>
   (\<forall>s v. tf = Some s \<and> strip s \<noteq> [] \<and> vf = Some v \<and> v \<noteq> [] \<and> v \<notin> set VOICES \<longrightarrow>
      post_tts e st tf vf = (Handled (Inl (HTTPException 400 (invalid_voice_detail v))), st) \<and>
      post_tts_buffered e st tf vf =
        (Handled (Inl (HTTPException 400 (invalid_voice_detail v))), st) \<and>
      (\<forall>w \<in> set VOICES. sublist ([CHR 0x27] @ w @ [CHR 0x27]) (invalid_voice_detail v))) \<and>
   post_tts e st tf None = post_tts e st tf (Some ''alba'') \<and>
   post_tts e st tf (Some []) = post_tts e st tf (Some ''alba'') \<and>
   post_tts_buffered e st tf None = post_tts_buffered e st tf (Some ''alba'') \<and>
   post_tts_buffered e st tf (Some []) = post_tts_buffered e st tf (Some ''alba'')"
proof -
  have m: "tf = None \<or> tf = Some [] \<longrightarrow>
      post_tts e st tf vf = (Unprocessable_422, st) \<and>
      post_tts_buffered e st tf vf = (Unprocessable_422, st)"
    using post_tts_missing [of tf e st vf] by blast
  have n: "fst (post_tts e st tf vf) \<noteq> Unprocessable_422"
    "fst (post_tts_buffered e st tf vf) \<noteq> Unprocessable_422"
    if "tf = Some s" "s \<noteq> []" for s
    using that post_tts_sent [of s e st vf] by simp_all
  have 1: "fst (post_tts e st tf vf) = Unprocessable_422 \<longleftrightarrow> tf = None \<or> tf = Some []"
    using m n(1) by (cases tf) auto
  have 2: "fst (post_tts_buffered e st tf vf) = Unprocessable_422 \<longleftrightarrow> tf = None \<or> tf = Some []"
    using m n(2) by (cases tf) auto
  have h: "((\<exists>d. fst (text_to_speech e st s (form_voice vf)) = Inl (HTTPException 400 d)) \<longleftrightarrow>
        (strip s = [] \<or> (\<exists>v. vf = Some v \<and> v \<noteq> [] \<and> v \<notin> set VOICES)))"
    "((\<exists>d. fst (text_to_speech_buffered e st s (form_voice vf)) = Inl (HTTPException 400 d)) \<longleftrightarrow>
        (strip s = [] \<or> (\<exists>v. vf = Some v \<and> v \<noteq> [] \<and> v \<notin> set VOICES)))" for s
    using handler_validation [of e st s "form_voice vf"] strip_Nil
    unfolding form_voice_invalid by auto
  have 4: "(\<exists>d. fst (post_tts e st tf vf) = Handled (Inl (HTTPException 400 d))) \<longleftrightarrow>
      (\<exists>s. tf = Some s \<and> s \<noteq> [] \<and>
         (strip s = [] \<or> (\<exists>v. vf = Some v \<and> v \<noteq> [] \<and> v \<notin> set VOICES)))"
  proof (cases "tf = None \<or> tf = Some []")
    case True
    with m show ?thesis by auto
  next
    case False
    then obtain s where s: "tf = Some s" "s \<noteq> []" by (cases tf) auto
    show ?thesis unfolding s(1) post_tts_sent(1) [OF s(2)] using h(1) [of s] s(2) by simp
  qed
  have 5: "(\<exists>d. fst (post_tts_buffered e st tf vf) = Handled (Inl (HTTPException 400 d))) \<longleftrightarrow>
      (\<exists>s. tf = Some s \<and> s \<noteq> [] \<and>
         (strip s = [] \<or> (\<exists>v. vf = Some v \<and> v \<noteq> [] \<and> v \<notin> set VOICES)))"
  proof (cases "tf = None \<or> tf = Some []")
    case True
    with m show ?thesis by auto
  next
    case False
    then obtain s where s: "tf = Some s" "s \<noteq> []" by (cases tf) auto
    show ?thesis unfolding s(1) post_tts_sent(2) [OF s(2)] using h(2) [of s] s(2) by simp
  qed
  have 6: "\<forall>s. tf = Some s \<and> s \<noteq> [] \<and> strip s = [] \<longrightarrow>
      post_tts e st tf vf = (Handled (Inl (HTTPException 400 ''Text cannot be empty'')), st) \<and>
      post_tts_buffered e st tf vf =
        (Handled (Inl (HTTPException 400 ''Text cannot be empty'')), st)"
    by (auto simp: post_tts_sent text_to_speech_invalid(1) text_to_speech_buffered_invalid(1))
  have 7: "\<forall>s v. tf = Some s \<and> strip s \<noteq> [] \<and> vf = Some v \<and> v \<noteq> [] \<and> v \<notin> set VOICES \<longrightarrow>
      post_tts e st tf vf = (Handled (Inl (HTTPException 400 (invalid_voice_detail v))), st) \<and>
      post_tts_buffered e st tf vf =
        (Handled (Inl (HTTPException 400 (invalid_voice_detail v))), st) \<and>
      (\<forall>w \<in> set VOICES. sublist ([CHR 0x27] @ w @ [CHR 0x27]) (invalid_voice_detail v))"
  proof (intro allI impI)
    fix s v
    assume a: "tf = Some s \<and> strip s \<noteq> [] \<and> vf = Some v \<and> v \<noteq> [] \<and> v \<notin> set VOICES"
    then have s: "s \<noteq> []" using strip_Nil by auto
    from a have v: "form_voice vf = v" by (simp add: form_voice_sent)
    from a show "post_tts e st tf vf =
        (Handled (Inl (HTTPException 400 (invalid_voice_detail v))), st) \<and>
      post_tts_buffered e st tf vf =
        (Handled (Inl (HTTPException 400 (invalid_voice_detail v))), st) \<and>
      (\<forall>w \<in> set VOICES. sublist ([CHR 0x27] @ w @ [CHR 0x27]) (invalid_voice_detail v))"
      using post_tts_sent [OF s, of e st vf] detail_lists_voices [of _ v]
      by (simp add: form_voice_sent text_to_speech_invalid(2) text_to_speech_buffered_invalid(2))
  qed
  note 8 = post_tts_default_voice [of e st tf]
  from 1 2 m 4 5 6 7 8 show ?thesis by blast
qed

theorem request_validation_counterexample:
  "strip [] = [] \<and>
   post_tts demo_env init_daemon (Some []) None = (Unprocessable_422, init_daemon) \<and>
   post_tts_buffered demo_env init_daemon (Some []) (Some ''alba'') =
     (Unprocessable_422, init_daemon) \<and>
   (\<nexists>d. fst (post_tts demo_env init_daemon (Some []) None) =
      Handled (Inl (HTTPException 400 d)))"
  by (simp add: post_tts_def post_tts_buffered_def form_value_def strip_def)

theorem request_validation_witness:
  "post_tts demo_env init_daemon None (Some ''alba'') = (Unprocessable_422, init_daemon) \<and>
   post_tts_buffered demo_env init_daemon (Some []) (Some ''nonexistent'') =
     (Unprocessable_422, init_daemon) \<and>
   post_tts demo_env init_daemon (Some ''   '') (Some ''nonexistent'') =
     (Handled (Inl (HTTPException 400 ''Text cannot be empty'')), init_daemon) \<and>
   post_tts demo_env init_daemon (Some ''Hello'') (Some ''nonexistent'') =
     (Handled (Inl (HTTPException 400 (invalid_voice_detail ''nonexistent''))), init_daemon) \<and>
   post_tts_buffered demo_env init_daemon (Some ''Hello'') (Some ''nonexistent'') =
     (Handled (Inl (HTTPException 400 (invalid_voice_detail ''nonexistent''))), init_daemon) \<and>
   sublist ([CHR 0x27] @ ''eponine'' @ [CHR 0x27]) (invalid_voice_detail ''nonexistent'') \<and>
   (\<nexists>d. fst (post_tts demo_env init_daemon (Some ''Hello'') (Some [])) =
      Handled (Inl (HTTPException 400 d))) \<and>
   (\<nexists>d. fst (post_tts_buffered demo_env init_daemon (Some ''Hello'') None) =
      Handled (Inl (HTTPException 400 d)))"
proof -
  have v: "''nonexistent'' \<notin> set VOICES" "''eponine'' \<in> set VOICES"
    by (simp_all add: VOICES_def)
  note t = request_validation [of demo_env init_daemon]
  note t3 = t [THEN conjunct2, THEN conjunct2, THEN conjunct1, rule_format]
  note t4 = t [THEN conjunct2, THEN conjunct2, THEN conjunct2, THEN conjunct1]
  note t5 = t [THEN conjunct2, THEN conjunct2, THEN conjunct2, THEN conjunct2, THEN conjunct1]
  note t6 = t [THEN conjunct2, THEN conjunct2, THEN conjunct2, THEN conjunct2, THEN conjunct2,
      THEN conjunct1, rule_format]
  note t7 = t [THEN conjunct2, THEN conjunct2, THEN conjunct2, THEN conjunct2, THEN conjunct2,
      THEN conjunct2, THEN conjunct1, rule_format]
  have a: "post_tts demo_env init_daemon None (Some ''alba'') = (Unprocessable_422, init_daemon)"
    using t3 [of None "Some ''alba''"] by simp
  have b: "post_tts_buffered demo_env init_daemon (Some []) (Some ''nonexistent'') =
     (Unprocessable_422, init_daemon)"
    using t3 [of "Some []" "Some ''nonexistent''"] by simp
  have c: "post_tts demo_env init_daemon (Some ''   '') (Some ''nonexistent'') =
     (Handled (Inl (HTTPException 400 ''Text cannot be empty'')), init_daemon)"
    using t6 [of "Some ''   ''" "''   ''" "Some ''nonexistent''"] by (simp add: strip_blank)
  have d: "post_tts demo_env init_daemon (Some ''Hello'') (Some ''nonexistent'') =
     (Handled (Inl (HTTPException 400 (invalid_voice_detail ''nonexistent''))), init_daemon)"
    "post_tts_buffered demo_env init_daemon (Some ''Hello'') (Some ''nonexistent'') =
     (Handled (Inl (HTTPException 400 (invalid_voice_detail ''nonexistent''))), init_daemon)"
    and q: "\<forall>w \<in> set VOICES.
        sublist ([CHR 0x27] @ w @ [CHR 0x27]) (invalid_voice_detail ''nonexistent'')"
    using t7 [of "Some ''Hello''" "''Hello''" "Some ''nonexistent''" "''nonexistent''"] v(1)
    by (simp_all add: strip_blank)
  from bspec [OF q v(2)]
  have d3: "sublist ([CHR 0x27] @ ''eponine'' @ [CHR 0x27]) (invalid_voice_detail ''nonexistent'')" .
  have f: "\<nexists>d. fst (post_tts demo_env init_daemon (Some ''Hello'') (Some [])) =
      Handled (Inl (HTTPException 400 d))"
    using t4 [of "Some ''Hello''" "Some []"] by (simp add: strip_blank)
  have g: "\<nexists>d. fst (post_tts_buffered demo_env init_daemon (Some ''Hello'') None) =
      Handled (Inl (HTTPException 400 d))"
    using t5 [of "Some ''Hello''" None] by (simp add: strip_blank)
  from a b c d d3 f g show ?thesis by blast
qed

section \<open>The buffered response\<close>

text \<open>
  C6 (as amended). Once validation has passed, the buffered endpoint drains the engine's
  frame sequence in the handler (every pull, the one that finds the sequence exhausted
  included, is logged before the handler returns or raises), and raises the generation
  error, HTTP 500 \<open>No audio generated\<close>, exactly when the drained list is empty, and no
  other HTTP error. Otherwise, provided the engine's sample rate is from 1 to
  \<open>2 ^ 31 - 1\<close> and the PCM payload plus 36 stays below \<open>2 ^ 32\<close> bytes, it returns one
  body: a 44-byte header whose data-size field is the exact byte length of the PCM
  payload, 2 bytes per sample of all frames together, and whose total-size field is
  that plus 36, followed by the payload. Outside those bounds the WAV writer raises and
  no body is returned.
\<close>

theorem buffered_response:
  assumes "strip text \<noteq> []" "voice \<in> set VOICES"
  shows "let m = fst (get_model e st);
             st2 = snd (get_voice_state e voice (snd (get_model e st)));
             vs = fst (get_voice_state e voice (snd (get_model e st)));
             chunks = generate_audio_stream m vs (strip text);
             n = 2 * int (length (concat chunks));
             r = text_to_speech_buffered e st text voice
         in calls (snd r) = calls st2 @ Generate vs (strip text)
                              # replicate (length chunks + 1) Next_frame \<and>
            (fst r = Inl (HTTPException 500 ''No audio generated'') \<longleftrightarrow> chunks = []) \<and>
            ((\<exists>c d. fst r = Inl (HTTPException c d)) \<longleftrightarrow> chunks = []) \<and>
            (chunks \<noteq> [] \<and> 0 < sample_rate m \<and> sample_rate m < 2 ^ 31 \<and> 36 + n < 2 ^ 32 \<longrightarrow>
               (\<exists>h. fst r = Inr (StreamingResponse
                        [Yield (h @ concat (map (pcm_from_chunk (float_mul e)) chunks))]
                        None ''audio/wav'') \<and>
                    header_layout h (36 + n) 1 (sample_rate m) n \<and>
                    int (length (concat (map (pcm_from_chunk (float_mul e)) chunks))) = n)) \<and>
            (chunks \<noteq> [] \<and> \<not> (0 < sample_rate m \<and> sample_rate m < 2 ^ 31 \<and> 36 + n < 2 ^ 32) \<longrightarrow>
               fst r = Inl WaveError \<or> fst r = Inl StructError)"
proof -
  let ?m = "fst (get_model e st)"
  let ?st2 = "snd (get_voice_state e voice (snd (get_model e st)))"
  let ?vs = "fst (get_voice_state e voice (snd (get_model e st)))"
  let ?cs = "generate_audio_stream ?m ?vs (strip text)"
  let ?n = "2 * int (length (concat ?cs))"
  let ?r = "text_to_speech_buffered e st text voice"
  let ?data = "tobytes (map (\<lambda>x. short (float_mul e (clamp (- 1) 1 x) 32767)) (concat ?cs))"
  let ?st3 = "?st2\<lparr>calls := calls ?st2 @ Generate ?vs (strip text)
                                    # replicate (length ?cs + 1) Next_frame\<rparr>"
  note v = text_to_speech_buffered_valid [OF assms, of e st, unfolded Let_def]
  have ld: "int (length ?data) = ?n" by (simp add: length_tobytes)
  have pc: "?data = concat (map (pcm_from_chunk (float_mul e)) ?cs)" by (rule pcm_concat)
  have s: "snd ?r = ?st3"
    unfolding v by (simp split: sum.splits)
  have 1: "calls (snd ?r) = calls ?st2 @ Generate ?vs (strip text)
                              # replicate (length ?cs + 1) Next_frame"
    unfolding s by simp
  have f: "fst ?r = (if ?cs = [] then Inl (HTTPException 500 ''No audio generated'')
                     else case wave_write (sample_rate ?m) ?data of
                            Inl x \<Rightarrow> Inl x
                          | Inr buffer \<Rightarrow> Inr (StreamingResponse [Yield buffer] None ''audio/wav''))"
    unfolding v by (simp split: sum.splits)
  have 2: "fst ?r = Inl (HTTPException 500 ''No audio generated'') \<longleftrightarrow> ?cs = []"
    unfolding f using wave_write_not_http [of "sample_rate ?m" ?data]
    by (auto split: sum.splits)
  have 3: "(\<exists>c d. fst ?r = Inl (HTTPException c d)) \<longleftrightarrow> ?cs = []"
    unfolding f using wave_write_not_http [of "sample_rate ?m" ?data]
    by (auto split: sum.splits)
  have 4: "?cs \<noteq> [] \<and> 0 < sample_rate ?m \<and> sample_rate ?m < 2 ^ 31 \<and> 36 + ?n < 2 ^ 32 \<longrightarrow>
               (\<exists>h. fst ?r = Inr (StreamingResponse
                        [Yield (h @ concat (map (pcm_from_chunk (float_mul e)) ?cs))]
                        None ''audio/wav'') \<and>
                    header_layout h (36 + ?n) 1 (sample_rate ?m) ?n \<and>
                    int (length (concat (map (pcm_from_chunk (float_mul e)) ?cs))) = ?n)"
  proof (intro impI, elim conjE)
    assume a: "?cs \<noteq> []" "0 < sample_rate ?m" "sample_rate ?m < 2 ^ 31" "36 + ?n < 2 ^ 32"
    from a(4) have "36 + int (length ?data) < 2 ^ 32" unfolding ld .
    from wave_write_layout [OF a(2,3) this] obtain h where
      h: "wave_write (sample_rate ?m) ?data = Inr (h @ ?data)"
        "header_layout h (36 + int (length ?data)) 1 (sample_rate ?m) (int (length ?data))"
      by blast
    from a(1) h(1) have "fst ?r = Inr (StreamingResponse [Yield (h @ ?data)] None ''audio/wav'')"
      unfolding f by simp
    with h(2) ld show "\<exists>h. fst ?r = Inr (StreamingResponse
                        [Yield (h @ concat (map (pcm_from_chunk (float_mul e)) ?cs))]
                        None ''audio/wav'') \<and>
                    header_layout h (36 + ?n) 1 (sample_rate ?m) ?n \<and>
                    int (length (concat (map (pcm_from_chunk (float_mul e)) ?cs))) = ?n"
      unfolding pc [symmetric] by auto
  qed
  have 5: "?cs \<noteq> [] \<and> \<not> (0 < sample_rate ?m \<and> sample_rate ?m < 2 ^ 31 \<and> 36 + ?n < 2 ^ 32) \<longrightarrow>
               fst ?r = Inl WaveError \<or> fst ?r = Inl StructError"
  proof (intro impI, elim conjE)
    assume a: "?cs \<noteq> []"
      and b: "\<not> (0 < sample_rate ?m \<and> sample_rate ?m < 2 ^ 31 \<and> 36 + ?n < 2 ^ 32)"
    from b ld have "sample_rate ?m \<le> 0 \<or> 2 ^ 31 \<le> sample_rate ?m \<or>
        (0 < sample_rate ?m \<and> 2 ^ 32 \<le> 36 + int (length ?data))"
      by linarith
    then have "wave_write (sample_rate ?m) ?data = Inl WaveError \<or>
        wave_write (sample_rate ?m) ?data = Inl StructError"
      using wave_write_fails [of "sample_rate ?m" ?data] by blast
    with a show "fst ?r = Inl WaveError \<or> fst ?r = Inl StructError"
      unfolding f by auto
  qed
  from 1 2 3 4 5 show ?thesis
    unfolding Let_def by blast
qed

theorem buffered_response_counterexample:
  "generate_audio_stream (load_model long_env) ''alba'' ''Hi'' \<noteq> [] \<and>
   fst (text_to_speech_buffered long_env init_daemon ''Hi'' ''alba'') = Inl StructError"
proof -
  have v: "strip ''Hi'' \<noteq> []" "''alba'' \<in> set VOICES"
    by (simp_all add: strip_demo VOICES_def)
  have m: "fst (get_model long_env init_daemon) = long_model"
    by (simp add: get_model_def init_daemon_def long_env_def Let_def)
  have c: "generate_audio_stream long_model vs t = [replicate 2147483630 0]" for vs t
    by (simp add: long_model_def)
  have sr: "sample_rate long_model = 24000" by (simp add: long_model_def)
  have w: "wave_write 24000 (tobytes (map f (concat [replicate 2147483630 (0::real)]))) =
      Inl StructError" for f
    by (rule wave_write_fails(2)) (simp_all add: length_tobytes)
  have "fst (text_to_speech_buffered long_env init_daemon ''Hi'' ''alba'') = Inl StructError"
    unfolding text_to_speech_buffered_valid [OF v] Let_def m c sr w by simp
  moreover have "generate_audio_stream (load_model long_env) ''alba'' ''Hi'' \<noteq> []"
    by (simp add: long_env_def c)
  ultimately show ?thesis by blast
qed

theorem buffered_response_witness:
  "(\<exists>h. fst (text_to_speech_buffered demo_env init_daemon ''Hi'' ''alba'') =
          Inr (StreamingResponse [Yield (h @ [255, 127, 1, 128, 255, 63])] None ''audio/wav'') \<and>
        header_layout h 42 1 24000 6) \<and>
   calls (snd (text_to_speech_buffered demo_env init_daemon ''Hi'' ''alba'')) =
     [Load_model, Get_state ''alba'', Generate ''alba'' ''Hi'', Next_frame, Next_frame,
      Next_frame] \<and>
   fst (text_to_speech_buffered mute_env init_daemon ''Hi'' ''alba'') =
     Inl (HTTPException 500 ''No audio generated'') \<and>
   calls (snd (text_to_speech_buffered mute_env init_daemon ''Hi'' ''alba'')) =
     [Load_model, Get_state ''alba'', Generate ''alba'' ''Hi'', Next_frame]"
proof -
  have v: "strip ''Hi'' \<noteq> []" "''alba'' \<in> set VOICES"
    by (simp_all add: strip_demo VOICES_def)
  have d: "fst (get_model demo_env init_daemon) = demo_model"
    "fst (get_voice_state demo_env ''alba'' (snd (get_model demo_env init_daemon))) = ''alba''"
    "calls (snd (get_voice_state demo_env ''alba'' (snd (get_model demo_env init_daemon)))) =
       [Load_model, Get_state ''alba'']"
    "generate_audio_stream demo_model ''alba'' (strip ''Hi'') = [[1, - 3], [1 / 2]]"
    "sample_rate demo_model = 24000"
    by (simp_all add: get_model_def get_voice_state_def init_daemon_def demo_env_def
        demo_model_def Let_def)
  have m: "fst (get_model mute_env init_daemon) = mute_model"
    "fst (get_voice_state mute_env ''alba'' (snd (get_model mute_env init_daemon))) = ''alba''"
    "calls (snd (get_voice_state mute_env ''alba'' (snd (get_model mute_env init_daemon)))) =
       [Load_model, Get_state ''alba'']"
    "generate_audio_stream mute_model ''alba'' (strip ''Hi'') = []"
    by (simp_all add: get_model_def get_voice_state_def init_daemon_def mute_env_def
        mute_model_def Let_def)
  have f: "float_mul demo_env = (*)" by (simp add: demo_env_def)
  from buffered_response [OF v, of demo_env init_daemon, unfolded Let_def d f]
  have a: "(\<exists>h. fst (text_to_speech_buffered demo_env init_daemon ''Hi'' ''alba'') =
          Inr (StreamingResponse [Yield (h @ [255, 127, 1, 128, 255, 63])] None ''audio/wav'') \<and>
        header_layout h 42 1 24000 6)"
    and b: "calls (snd (text_to_speech_buffered demo_env init_daemon ''Hi'' ''alba'')) =
     [Load_model, Get_state ''alba'', Generate ''alba'' ''Hi'', Next_frame, Next_frame,
      Next_frame]"
    by (simp_all add: demo_pcm strip_demo numeral_3_eq_3)
  from buffered_response [OF v, of mute_env init_daemon, unfolded Let_def m]
  have c: "fst (text_to_speech_buffered mute_env init_daemon ''Hi'' ''alba'') =
     Inl (HTTPException 500 ''No audio generated'')"
    and e: "calls (snd (text_to_speech_buffered mute_env init_daemon ''Hi'' ''alba'')) =
     [Load_model, Get_state ''alba'', Generate ''alba'' ''Hi'', Next_frame]"
    by (simp_all add: strip_demo)
  from a b c e show ?thesis by blast
qed

section \<open>Sequential executions\<close>

lemma count_list_append: "count_list (xs @ ys) x = count_list xs x + count_list ys x"
  by (induction xs) simp_all

lemma cache_inv_init: "cache_inv init_daemon"
  by (simp add: cache_inv_def init_daemon_def)

lemma cache_inv_get_model: "cache_inv st \<Longrightarrow> cache_inv (snd (get_model e st))"
  by (cases "global_model st")
     (auto simp: cache_inv_def get_model_after count_list_append)

lemma cache_inv_get_voice_state:
  assumes "cache_inv st"
  shows "cache_inv (snd (get_voice_state e voice st))"
proof (cases "global_voice_states st voice")
  case (Some v)
  with assms show ?thesis by (simp add: get_voice_state_hit)
next
  case None
  from cache_inv_get_model [OF assms, of e]
  have i: "cache_inv (snd (get_model e st))" .
  from i have "count_list (calls (snd (get_model e st))) (Get_state voice)
      \<le> (if global_voice_states (snd (get_model e st)) voice = None then 0 else 1)"
    unfolding cache_inv_def by blast
  with None have c: "count_list (calls (snd (get_model e st))) (Get_state voice) = 0"
    by (simp add: get_model_after(2))
  have each: "count_list (calls (snd (get_model e st))) (Get_state w)
        \<le> (if global_voice_states st w = None then 0 else 1)" for w
    using i unfolding cache_inv_def get_model_after(2) by blast
  have each0: "global_voice_states st w = None \<Longrightarrow>
      count_list (calls (snd (get_model e st))) (Get_state w) = 0" for w
    using each [of w] by simp
  have each1: "count_list (calls (snd (get_model e st))) (Get_state w) \<le> Suc 0" for w
    using each [of w] by (simp split: if_splits)
  show ?thesis
    unfolding get_voice_state_miss [OF None]
    using i c each0 each1
    by (auto simp: cache_inv_def count_list_append get_model_after(1,2))
qed

lemma cache_inv_log:
  assumes "cache_inv st" "Load_model \<notin> set cs" "\<forall>v. Get_state v \<notin> set cs"
  shows "cache_inv (st\<lparr>calls := calls st @ cs\<rparr>)"
  using assms by (simp add: cache_inv_def count_list_append count_list_0_iff)

lemma cache_inv_text_to_speech:
  assumes "cache_inv st"
  shows "cache_inv (snd (text_to_speech e st text voice))"
proof (cases "strip text \<noteq> [] \<and> voice \<in> set VOICES")
  case True
  then have v: "strip text \<noteq> []" "voice \<in> set VOICES" by simp_all
  have "cache_inv (snd (get_voice_state e voice (snd (get_model e st))))"
    by (intro cache_inv_get_voice_state cache_inv_get_model assms)
  from cache_inv_log [OF this, of "[Generate (fst (get_voice_state e voice (snd (get_model e st)))) (strip text)]"]
  show ?thesis
    unfolding text_to_speech_valid [OF v] by (simp split: prod.splits)
next
  case False
  with assms text_to_speech_invalid(1) [of "text" e st voice]
    text_to_speech_invalid(2) [of "text" voice e st]
  show ?thesis by (cases "strip text = []") auto
qed

lemma snd_text_to_speech_buffered:
  assumes "strip text \<noteq> []" "voice \<in> set VOICES"
  shows "snd (text_to_speech_buffered e st text voice) =
     (snd (get_voice_state e voice (snd (get_model e st))))
      \<lparr>calls := calls (snd (get_voice_state e voice (snd (get_model e st))))
         @ Generate (fst (get_voice_state e voice (snd (get_model e st)))) (strip text)
        # replicate (length (generate_audio_stream (fst (get_model e st))
             (fst (get_voice_state e voice (snd (get_model e st)))) (strip text)) + 1) Next_frame\<rparr>"
  unfolding text_to_speech_buffered_valid [OF assms, of e st, unfolded Let_def]
  by (simp split: sum.splits)

lemma cache_inv_text_to_speech_buffered:
  assumes "cache_inv st"
  shows "cache_inv (snd (text_to_speech_buffered e st text voice))"
proof (cases "strip text \<noteq> [] \<and> voice \<in> set VOICES")
  case True
  then have v: "strip text \<noteq> []" "voice \<in> set VOICES" by simp_all
  have "cache_inv (snd (get_voice_state e voice (snd (get_model e st))))"
    by (intro cache_inv_get_voice_state cache_inv_get_model assms)
  from cache_inv_log [OF this, of "Generate (fst (get_voice_state e voice (snd (get_model e st)))) (strip text)
        # replicate (length (generate_audio_stream (fst (get_model e st))
             (fst (get_voice_state e voice (snd (get_model e st)))) (strip text)) + 1) Next_frame"]
  show ?thesis
    unfolding snd_text_to_speech_buffered [OF v] by simp
next
  case False
  with assms text_to_speech_buffered_invalid(1) [of "text" e st voice]
    text_to_speech_buffered_invalid(2) [of "text" voice e st]
  show ?thesis by (cases "strip text = []") auto
qed

lemma cache_inv_exec: "cache_inv st \<Longrightarrow> cache_inv (exec e r st)"
  by (cases r)
     (simp_all add: cache_inv_get_model cache_inv_get_voice_state cache_inv_text_to_speech
        cache_inv_text_to_speech_buffered run_server_def)

lemma cache_inv_run: "cache_inv st \<Longrightarrow> cache_inv (run e rs st)"
  unfolding run_def by (induction rs arbitrary: st) (simp_all add: cache_inv_exec)

lemma run_append: "run e (rs @ rs') st = run e rs' (run e rs st)"
  by (simp add: run_def)

text \<open>
  C7. For every voice name, the voice-state lookup returns the cached state when the
  key is present, with no engine call and no change of state; otherwise it computes the
  state through the engine, stores it under that key and returns it, and a second
  lookup of the same voice right after computes nothing. Hence in every sequential
  execution from process start (any list of lookups, requests to either endpoint,
  resolutions and start-up warm-ups) the conditioning call for a given voice is made
  at most once.
\<close>

theorem voice_state_cache:
  "(global_voice_states st voice = Some v \<longrightarrow> get_voice_state e voice st = (v, st)) \<and>
   (global_voice_states st voice = None \<longrightarrow>
      fst (get_voice_state e voice st) =
        get_state_for_audio_prompt (fst (get_model e st)) voice \<and>
      global_voice_states (snd (get_voice_state e voice st)) =
        (global_voice_states st)
          (voice \<mapsto> get_state_for_audio_prompt (fst (get_model e st)) voice) \<and>
      calls (snd (get_voice_state e voice st)) =
        calls (snd (get_model e st)) @ [Get_state voice]) \<and>
   get_voice_state e voice (snd (get_voice_state e voice st)) =
     (fst (get_voice_state e voice st), snd (get_voice_state e voice st)) \<and>
   count_list (calls (run e rs init_daemon)) (Get_state voice) \<le> 1"
proof (intro conjI impI)
  assume "global_voice_states st voice = Some v"
  then show "get_voice_state e voice st = (v, st)" by (rule get_voice_state_hit)
next
  assume n: "global_voice_states st voice = None"
  show "fst (get_voice_state e voice st) =
        get_state_for_audio_prompt (fst (get_model e st)) voice"
    "global_voice_states (snd (get_voice_state e voice st)) =
        (global_voice_states st)
          (voice \<mapsto> get_state_for_audio_prompt (fst (get_model e st)) voice)"
    "calls (snd (get_voice_state e voice st)) =
        calls (snd (get_model e st)) @ [Get_state voice]"
    unfolding get_voice_state_miss [OF n] by simp_all
next
  show "get_voice_state e voice (snd (get_voice_state e voice st)) =
     (fst (get_voice_state e voice st), snd (get_voice_state e voice st))"
    by (rule get_voice_state_hit) (rule get_voice_state_after(1))
next
  from cache_inv_run [OF cache_inv_init, of e rs]
  have "count_list (calls (run e rs init_daemon)) (Get_state voice)
      \<le> (if global_voice_states (run e rs init_daemon) voice = None then 0 else 1)"
    unfolding cache_inv_def by blast
  then show "count_list (calls (run e rs init_daemon)) (Get_state voice) \<le> 1"
    by (simp split: if_splits)
qed

lemma demo_run:
  "calls (run demo_env
      [Call_run_server, Post_tts ''Hi'' ''marius'', Post_tts_buffered ''Hi'' ''marius'',
       Call_get_voice_state ''alba''] init_daemon) =
     [Load_model, Get_state ''alba'', Get_state ''marius'', Generate ''marius'' ''Hi'',
      Generate ''marius'' ''Hi'', Next_frame, Next_frame, Next_frame]"
  by (simp add: run_def run_server_def text_to_speech_def text_to_speech_buffered_def strip_demo
      VOICES_def get_model_def get_voice_state_def init_daemon_def demo_env_def demo_model_def
      Let_def case_prod_unfold numeral_3_eq_3 split: sum.splits)

theorem voice_state_cache_witness:
  "get_voice_state demo_env ''alba''
      \<lparr>global_model = Some demo_model, global_voice_states = [''alba'' \<mapsto> ''cached''],
       calls = []\<rparr> =
     (''cached'', \<lparr>global_model = Some demo_model,
                   global_voice_states = [''alba'' \<mapsto> ''cached''], calls = []\<rparr>) \<and>
   get_voice_state demo_env ''marius'' init_daemon =
     (''marius'', \<lparr>global_model = Some demo_model,
                   global_voice_states = [''marius'' \<mapsto> ''marius''],
                   calls = [Load_model, Get_state ''marius'']\<rparr>) \<and>
   calls (run demo_env
      [Call_run_server, Post_tts ''Hi'' ''marius'', Post_tts_buffered ''Hi'' ''marius'',
       Call_get_voice_state ''alba''] init_daemon) =
     [Load_model, Get_state ''alba'', Get_state ''marius'', Generate ''marius'' ''Hi'',
      Generate ''marius'' ''Hi'', Next_frame, Next_frame, Next_frame] \<and>
   count_list (calls (run demo_env
      [Call_run_server, Post_tts ''Hi'' ''marius'', Post_tts_buffered ''Hi'' ''marius'',
       Call_get_voice_state ''alba''] init_daemon)) (Get_state ''marius'') = 1"
proof -
  note t = voice_state_cache [of _ _ _ demo_env]
  have a: "get_voice_state demo_env ''alba''
      \<lparr>global_model = Some demo_model, global_voice_states = [''alba'' \<mapsto> ''cached''],
       calls = []\<rparr> =
     (''cached'', \<lparr>global_model = Some demo_model,
                   global_voice_states = [''alba'' \<mapsto> ''cached''], calls = []\<rparr>)"
    using t [THEN conjunct1, rule_format,
        of "\<lparr>global_model = Some demo_model, global_voice_states = [''alba'' \<mapsto> ''cached''],
            calls = []\<rparr>" "''alba''" "''cached''"]
    by simp
  have b: "get_voice_state demo_env ''marius'' init_daemon =
     (''marius'', \<lparr>global_model = Some demo_model,
                   global_voice_states = [''marius'' \<mapsto> ''marius''],
                   calls = [Load_model, Get_state ''marius'']\<rparr>)"
    using t [THEN conjunct2, THEN conjunct1, rule_format, of init_daemon "''marius''"]
    by (simp add: get_voice_state_def get_model_def init_daemon_def demo_env_def demo_model_def
        Let_def)
  have c: "count_list (calls (run demo_env
      [Call_run_server, Post_tts ''Hi'' ''marius'', Post_tts_buffered ''Hi'' ''marius'',
       Call_get_voice_state ''alba''] init_daemon)) (Get_state ''marius'') = 1"
    using t [THEN conjunct2, THEN conjunct2, THEN conjunct2,
        of "[Call_run_server, Post_tts ''Hi'' ''marius'', Post_tts_buffered ''Hi'' ''marius'',
             Call_get_voice_state ''alba'']" "''marius''"]
    by (simp add: demo_run)
  from a b c demo_run show ?thesis by blast
qed

section \<open>The engine handle\<close>

lemma load_inv_init: "load_inv e init_daemon"
  by (simp add: load_inv_def init_daemon_def loads_def)

lemma load_inv_get_model:
  assumes "load_inv e st"
  shows "load_inv e (snd (get_model e st))" "global_model (snd (get_model e st)) = Some (load_model e)"
  using assms
  by (auto simp: load_inv_def loads_def get_model_def Let_def count_list_append)

lemma load_inv_log:
  assumes "load_inv e st" "Load_model \<notin> set cs"
  shows "load_inv e (st\<lparr>calls := calls st @ cs\<rparr>)"
    "load_inv e (st\<lparr>global_voice_states := c, calls := calls st @ cs\<rparr>)"
  using assms by (simp_all add: load_inv_def loads_def count_list_append count_list_0_iff)

lemma load_inv_get_voice_state:
  assumes "load_inv e st"
  shows "load_inv e (snd (get_voice_state e voice st))"
proof (cases "global_voice_states st voice")
  case (Some v)
  with assms show ?thesis by (simp add: get_voice_state_hit)
next
  case None
  from load_inv_log(2) [OF load_inv_get_model(1) [OF assms], of "[Get_state voice]"]
  show ?thesis
    unfolding get_voice_state_miss [OF None] by simp
qed

lemma load_inv_handlers:
  assumes "load_inv e st"
  shows "load_inv e (snd (text_to_speech e st text voice))"
    "load_inv e (snd (text_to_speech_buffered e st text voice))"
proof -
  have i: "load_inv e (snd (get_voice_state e voice (snd (get_model e st))))"
    by (intro load_inv_get_voice_state load_inv_get_model assms)
  show "load_inv e (snd (text_to_speech e st text voice))"
  proof (cases "strip text \<noteq> [] \<and> voice \<in> set VOICES")
    case True
    then have v: "strip text \<noteq> []" "voice \<in> set VOICES" by simp_all
    from load_inv_log(1) [OF i, of "[Generate (fst (get_voice_state e voice (snd (get_model e st)))) (strip text)]"]
    show ?thesis
      unfolding text_to_speech_valid [OF v] by (simp split: prod.splits)
  next
    case False
    with assms text_to_speech_invalid(1) [of "text" e st voice]
      text_to_speech_invalid(2) [of "text" voice e st]
    show ?thesis by (cases "strip text = []") auto
  qed
  show "load_inv e (snd (text_to_speech_buffered e st text voice))"
  proof (cases "strip text \<noteq> [] \<and> voice \<in> set VOICES")
    case True
    then have v: "strip text \<noteq> []" "voice \<in> set VOICES" by simp_all
    from load_inv_log(1) [OF i, of "Generate (fst (get_voice_state e voice (snd (get_model e st)))) (strip text)
        # replicate (length (generate_audio_stream (fst (get_model e st))
             (fst (get_voice_state e voice (snd (get_model e st)))) (strip text)) + 1) Next_frame"]
    show ?thesis
      unfolding snd_text_to_speech_buffered [OF v] by simp
  next
    case False
    with assms text_to_speech_buffered_invalid(1) [of "text" e st voice]
      text_to_speech_buffered_invalid(2) [of "text" voice e st]
    show ?thesis by (cases "strip text = []") auto
  qed
qed

lemma load_inv_exec: "load_inv e st \<Longrightarrow> load_inv e (exec e r st)"
  by (cases r)
     (simp_all add: load_inv_get_model load_inv_get_voice_state load_inv_handlers
        run_server_def)

lemma load_inv_run: "load_inv e st \<Longrightarrow> load_inv e (run e rs st)"
  unfolding run_def by (induction rs arbitrary: st) (simp_all add: load_inv_exec)

lemma model_kept_handlers:
  assumes "global_model st = Some m"
  shows "global_model (snd (text_to_speech e st text voice)) = Some m"
    "global_model (snd (text_to_speech_buffered e st text voice)) = Some m"
proof -
  have k: "global_model (snd (get_voice_state e voice (snd (get_model e st)))) = Some m"
    using assms by (simp add: get_model_loaded get_voice_state_after(2))
  show "global_model (snd (text_to_speech e st text voice)) = Some m"
  proof (cases "strip text \<noteq> [] \<and> voice \<in> set VOICES")
    case True
    then have v: "strip text \<noteq> []" "voice \<in> set VOICES" by simp_all
    from k show ?thesis
      unfolding text_to_speech_valid [OF v] by (simp split: prod.splits)
  next
    case False
    with assms text_to_speech_invalid(1) [of "text" e st voice]
      text_to_speech_invalid(2) [of "text" voice e st]
    show ?thesis by (cases "strip text = []") auto
  qed
  show "global_model (snd (text_to_speech_buffered e st text voice)) = Some m"
  proof (cases "strip text \<noteq> [] \<and> voice \<in> set VOICES")
    case True
    then have v: "strip text \<noteq> []" "voice \<in> set VOICES" by simp_all
    from k show ?thesis
      unfolding snd_text_to_speech_buffered [OF v] by simp
  next
    case False
    with assms text_to_speech_buffered_invalid(1) [of "text" e st voice]
      text_to_speech_buffered_invalid(2) [of "text" voice e st]
    show ?thesis by (cases "strip text = []") auto
  qed
qed

lemma model_kept_exec: "global_model st = Some m \<Longrightarrow> global_model (exec e r st) = Some m"
  by (cases r)
     (simp_all add: get_model_loaded get_voice_state_after(2) model_kept_handlers run_server_def)

lemma model_kept_run: "global_model st = Some m \<Longrightarrow> global_model (run e rs st) = Some m"
  unfolding run_def by (induction rs arbitrary: st) (simp_all add: model_kept_exec)

lemma resolved_run:
  assumes "Call_get_model \<in> set rs"
  shows "global_model (run e rs init_daemon) = Some (load_model e)"
proof -
  from assms obtain xs ys where rs: "rs = xs @ Call_get_model # ys"
    by (auto simp: in_set_conv_decomp)
  have "global_model (exec e Call_get_model (run e xs init_daemon)) = Some (load_model e)"
    using load_inv_get_model(2) [OF load_inv_run [OF load_inv_init]] by simp
  then show ?thesis
    unfolding rs run_append by (simp add: run_def model_kept_run [unfolded run_def])
qed

lemma thread_alone:
  "run_threads e [0, 0, 0] ([(At_test, r)], st) =
     ([(Returned, Some (fst (get_model e st)))], snd (get_model e st))"
  by (cases "global_model st") (simp_all add: run_threads_def get_model_def Let_def)

text \<open>
  Sequential executions, where each resolution runs to its end before the next call
  starts: a resolution that finds the reference unset loads the engine once and stores
  it, a resolution that finds it set returns the stored engine without loading, and
  after any list of calls from process start the number of loads is 0 while the
  reference is unset and 1 once it is set. A thread that runs \<open>get_model\<close> without
  interference does exactly that.
\<close>

lemma get_model_sequential:
  "(global_model st = None \<longrightarrow>
      get_model e st =
        (load_model e,
         st\<lparr>global_model := Some (load_model e), calls := calls st @ [Load_model]\<rparr>)) \<and>
   (global_model st = Some m \<longrightarrow> get_model e st = (m, st)) \<and>
   run_threads e [0, 0, 0] ([(At_test, None)], st) =
     ([(Returned, Some (fst (get_model e st)))], snd (get_model e st)) \<and>
   loads (run e rs init_daemon) = (if global_model (run e rs init_daemon) = None then 0 else 1) \<and>
   (Call_get_model \<in> set rs \<longrightarrow>
      global_model (run e rs init_daemon) = Some (load_model e) \<and>
      loads (run e rs init_daemon) = 1)"
proof -
  from load_inv_run [OF load_inv_init, of e rs]
  have l: "loads (run e rs init_daemon) =
      (if global_model (run e rs init_daemon) = None then 0 else 1)"
    by (auto simp: load_inv_def)
  from l resolved_run [of rs e]
  have "Call_get_model \<in> set rs \<longrightarrow>
      global_model (run e rs init_daemon) = Some (load_model e) \<and>
      loads (run e rs init_daemon) = 1"
    by simp
  with l show ?thesis
    by (simp add: get_model_loaded get_model_unloaded thread_alone)
qed

lemma get_model_sequential_example:
  "get_model demo_env init_daemon =
     (demo_model, \<lparr>global_model = Some demo_model, global_voice_states = Map.empty,
                    calls = [Load_model]\<rparr>) \<and>
   get_model demo_env \<lparr>global_model = Some demo_model, global_voice_states = Map.empty,
                        calls = [Load_model]\<rparr> =
     (demo_model, \<lparr>global_model = Some demo_model, global_voice_states = Map.empty,
                    calls = [Load_model]\<rparr>) \<and>
   loads (run demo_env [Post_tts ''Hi'' ''alba'', Call_get_model, Call_run_server,
                        Call_get_model] init_daemon) = 1 \<and>
   loads (run demo_env [Get_health] init_daemon) = 0"
proof -
  note t = get_model_sequential [of _ demo_env]
  have a: "get_model demo_env init_daemon =
     (demo_model, \<lparr>global_model = Some demo_model, global_voice_states = Map.empty,
                    calls = [Load_model]\<rparr>)"
    using t [THEN conjunct1, rule_format, of init_daemon]
    by (simp add: init_daemon_def demo_env_def)
  have b: "get_model demo_env \<lparr>global_model = Some demo_model, global_voice_states = Map.empty,
                        calls = [Load_model]\<rparr> =
     (demo_model, \<lparr>global_model = Some demo_model, global_voice_states = Map.empty,
                    calls = [Load_model]\<rparr>)"
    using t [THEN conjunct2, THEN conjunct1, rule_format,
        of "\<lparr>global_model = Some demo_model, global_voice_states = Map.empty,
              calls = [Load_model]\<rparr>" demo_model]
    by simp
  have c: "loads (run demo_env [Post_tts ''Hi'' ''alba'', Call_get_model, Call_run_server,
                        Call_get_model] init_daemon) = 1"
    using t [THEN conjunct2, THEN conjunct2, THEN conjunct2, THEN conjunct2, rule_format,
        of "[Post_tts ''Hi'' ''alba'', Call_get_model, Call_run_server, Call_get_model]"]
    by simp
  have d: "loads (run demo_env [Get_health] init_daemon) = 0"
    using t [THEN conjunct2, THEN conjunct2, THEN conjunct2, THEN conjunct1, of "[Get_health]"]
    by (simp add: run_def init_daemon_def)
  from a b c d show ?thesis by blast
qed

text \<open>
  C9. The engine-handle resolution is to perform one model load across all callers,
  concurrent first callers included; the comment on the global and the docstring of
  \<open>get_model\<close> say the same (loaded once, singleton). \<open>get_model\<close> holds no lock
  between its test and its assignment. Two threads that both reach the test while the
  reference is unset both load: in the schedule test, test, load, load, return, return
  from process start two loads execute. The same two threads one after the other load
  once, and so does \<open>run_server\<close> before it starts serving.
\<close>

theorem get_model_race:
  "run_threads e [0, 1, 0, 1, 0, 1] ([(At_test, None), (At_test, None)], init_daemon) =
     ([(Returned, Some (load_model e)), (Returned, Some (load_model e))],
      \<lparr>global_model = Some (load_model e), global_voice_states = Map.empty,
       calls = [Load_model, Load_model]\<rparr>) \<and>
   loads (snd (run_threads e [0, 1, 0, 1, 0, 1]
                 ([(At_test, None), (At_test, None)], init_daemon))) = 2 \<and>
   loads (snd (run_threads e [0, 0, 0, 1, 1, 1]
                 ([(At_test, None), (At_test, None)], init_daemon))) = 1 \<and>
   global_model (run_server e init_daemon) = Some (load_model e) \<and>
   loads (run_server e init_daemon) = 1"
  by (simp add: run_threads_def init_daemon_def loads_def run_server_def get_model_def
      get_voice_state_def Let_def)

section \<open>Requests on the raw socket\<close>

lemma split_not_Nil: "split sep s \<noteq> []"
  by (induction s) (auto split: list.splits)

lemma parse_request_first_line:
  "\<exists>rest. split (CHR 0x0A) (strip data) = fst (parse_request data) # rest"
proof -
  obtain l ls where "split (CHR 0x0A) (strip data) = l # ls"
    using split_not_Nil [of "CHR 0x0A" "strip data"] by (cases "split (CHR 0x0A) (strip data)") auto
  then show ?thesis by (simp add: parse_request_def Let_def)
qed

lemma handle_client_states:
  "fst (handle_client mul m vstates data) =
     (case vstates (fst (parse_request data)) of
        None \<Rightarrow> vstates(fst (parse_request data)
                   \<mapsto> get_state_for_audio_prompt m (fst (parse_request data)))
      | Some v \<Rightarrow> vstates)"
  by (cases "parse_request data")
     (auto simp: handle_client_def Let_def split: option.splits sum.splits)

lemma handle_client_miss:
  assumes "vstates (fst (parse_request data)) = None"
  shows "\<exists>evs x. handle_client mul m vstates data =
     (vstates(fst (parse_request data) \<mapsto> get_state_for_audio_prompt m (fst (parse_request data))),
      Get_state (fst (parse_request data)) # evs, x) \<and> (\<forall>w. Get_state w \<notin> set evs)"
proof -
  have n: "Get_state w \<notin> set (send_chunks mul cs :: 'a event list)" for w cs
    by (induction cs) simp_all
  obtain voice tx where p: "parse_request data = (voice, tx)" by (cases "parse_request data")
  with assms show ?thesis
    by (auto simp: handle_client_def Let_def n split: sum.splits)
qed

lemma handle_client_hit:
  assumes "vstates (fst (parse_request data)) = Some v"
  shows "\<exists>evs x. handle_client mul m vstates data = (vstates, evs, x) \<and>
           (\<forall>w. Get_state w \<notin> set evs)"
proof -
  have n: "Get_state w \<notin> set (send_chunks mul cs :: 'a event list)" for w cs
    by (induction cs) simp_all
  obtain voice tx where p: "parse_request data = (voice, tx)" by (cases "parse_request data")
  with assms show ?thesis
    by (auto simp: handle_client_def Let_def n split: sum.splits)
qed

lemma handle_client_keeps:
  "vstates k = Some v \<Longrightarrow> fst (handle_client mul m vstates data) k = Some v"
  unfolding handle_client_states by (auto split: option.splits)

lemma serve_keeps: "vstates k = Some v \<Longrightarrow> fst (serve mul m vstates ds) k = Some v"
proof (induction ds arbitrary: vstates)
  case Nil
  then show ?case by simp
next
  case (Cons d ds)
  have "fst (handle_client mul m vstates d) k = Some v"
    using Cons.prems by (rule handle_client_keeps)
  then have "fst (serve mul m (fst (handle_client mul m vstates d)) ds) k = Some v"
    by (rule Cons.IH)
  then show ?case by (simp add: case_prod_unfold Let_def)
qed

text \<open>
  C8. What the parser does with a request that carries no voice: the data is stripped
  and split at line feeds, and a split never returns an empty list, so the first line
  always exists and the voice default is never taken. An empty request, or one that is
  only a line feed, gives the empty string as the voice; a request whose voice line is
  empty gives the text as the voice. The text default is taken whenever there is no
  second line.
\<close>

theorem parse_request_voice_default:
  "parse_request [] = ([], ''Hello world'') \<and>
   parse_request ''\<newline>'' = ([], ''Hello world'') \<and>
   parse_request ''\<newline>Hello'' = (''Hello'', ''Hello world'') \<and>
   parse_request ''marius'' = (''marius'', ''Hello world'') \<and>
   parse_request ''marius\<newline>Hello\<newline>'' = (''marius'', ''Hello'')"
  by (simp add: parse_request_def strip_def isspace_def Let_def)

lemma parse_request_unstripped:
  assumes "strip data = data"
  shows "fst (parse_request data) = spec_first_line data"
  using parse_request_first_line [of data] assms by (auto simp: spec_first_line_def)

lemma http_unknown_voice:
  assumes "u \<noteq> []" "u \<notin> set VOICES"
  shows "(\<exists>r. post_tts e st tf (Some u) = (r, st) \<and>
           (r = Unprocessable_422 \<or> (\<exists>d. r = Handled (Inl (HTTPException 400 d))))) \<and>
    (\<exists>r. post_tts_buffered e st tf (Some u) = (r, st) \<and>
           (r = Unprocessable_422 \<or> (\<exists>d. r = Handled (Inl (HTTPException 400 d)))))"
proof (cases "tf = None \<or> tf = Some []")
  case True
  from post_tts_missing [OF this, of e st "Some u"] show ?thesis by simp
next
  case False
  then obtain s where s: "tf = Some s" "s \<noteq> []" by (cases tf) auto
  have "\<exists>d. text_to_speech e st s u = (Inl (HTTPException 400 d), st)"
    "\<exists>d. text_to_speech_buffered e st s u = (Inl (HTTPException 400 d), st)"
    using assms(2) text_to_speech_invalid(1) [of s e st u] text_to_speech_invalid(2) [of s u e st]
      text_to_speech_buffered_invalid(1) [of s e st u]
      text_to_speech_buffered_invalid(2) [of s u e st]
    by (cases "strip s = []"; auto)+
  then obtain d d' where
    d: "text_to_speech e st s u = (Inl (HTTPException 400 d), st)"
      "text_to_speech_buffered e st s u = (Inl (HTTPException 400 d'), st)"
    by blast
  show ?thesis
    unfolding s(1) post_tts_sent [OF s(2)] form_voice_sent [OF assms(1)] d by simp
qed

text \<open>
  C10 (as amended). The raw socket handler validates no voice. The voice is the first
  line of the request after the whole request has been stripped of leading and trailing
  whitespace (for a request that the stripping leaves as it is, the first line as
  received), the empty string and names outside the eight voices included. On a cache
  miss it is the argument of the engine's conditioning call, which is the first event
  of the connection and its only conditioning call, and the resulting state is stored
  under that string, also when the handler fails later; on a hit no conditioning call
  is made. An entry of the dictionary is never removed or replaced by later
  connections. The HTTP transports answer a request that names a voice outside the
  eight (a non-empty name: an empty voice field is the default voice) with 422 or 400
  and leave the state as it was: no engine call.
\<close>

theorem raw_no_voice_validation:
  "(\<exists>rest. split (CHR 0x0A) (strip data) = fst (parse_request data) # rest) \<and>
   (strip data = data \<longrightarrow> fst (parse_request data) = spec_first_line data) \<and>
   (vstates (fst (parse_request data)) = None \<longrightarrow>
      (\<exists>evs x. handle_client mul m vstates data =
         (vstates(fst (parse_request data)
            \<mapsto> get_state_for_audio_prompt m (fst (parse_request data))),
          Get_state (fst (parse_request data)) # evs, x) \<and>
         (\<forall>w. Get_state w \<notin> set evs))) \<and>
   (vstates (fst (parse_request data)) = Some v \<longrightarrow>
      (\<exists>evs x. handle_client mul m vstates data = (vstates, evs, x) \<and>
         (\<forall>w. Get_state w \<notin> set evs))) \<and>
   (vstates k = Some v \<longrightarrow> fst (serve mul m vstates ds) k = Some v) \<and>
   (u \<noteq> [] \<and> u \<notin> set VOICES \<longrightarrow>
      (\<exists>r. post_tts e st tf (Some u) = (r, st) \<and>
         (r = Unprocessable_422 \<or> (\<exists>d. r = Handled (Inl (HTTPException 400 d))))) \<and>
      (\<exists>r. post_tts_buffered e st tf (Some u) = (r, st) \<and>
         (r = Unprocessable_422 \<or> (\<exists>d. r = Handled (Inl (HTTPException 400 d)))))) \<and>
   post_tts e st tf (Some []) = post_tts e st tf (Some ''alba'') \<and>
   post_tts_buffered e st tf (Some []) = post_tts_buffered e st tf (Some ''alba'')"
proof -
  have h: "u \<noteq> [] \<and> u \<notin> set VOICES \<longrightarrow>
      (\<exists>r. post_tts e st tf (Some u) = (r, st) \<and>
         (r = Unprocessable_422 \<or> (\<exists>d. r = Handled (Inl (HTTPException 400 d))))) \<and>
      (\<exists>r. post_tts_buffered e st tf (Some u) = (r, st) \<and>
         (r = Unprocessable_422 \<or> (\<exists>d. r = Handled (Inl (HTTPException 400 d)))))"
    using http_unknown_voice [of u e st tf] by blast
  from h parse_request_first_line [of data] parse_request_unstripped [of data]
    handle_client_miss [of vstates data mul m]
    handle_client_hit [of vstates data v mul m] serve_keeps [of vstates k v mul m ds]
    post_tts_default_voice(2,4) [of e st tf]
  show ?thesis by blast
qed

theorem raw_first_line_counterexample:
  "spec_first_line ''\<newline>Hello\<newline>'' = [] \<and>
   parse_request ''\<newline>Hello\<newline>'' = (''Hello'', ''Hello world'') \<and>
   handle_client (*) demo_model [''alba'' \<mapsto> ''alba''] ''\<newline>Hello\<newline>'' =
     ([''alba'' \<mapsto> ''alba'', ''Hello'' \<mapsto> ''Hello''],
      [Get_state ''Hello'', Sendall demo_header, Generate ''Hello'' ''Hello world'',
       Next_frame, Sendall [255, 127, 1, 128], Next_frame, Sendall [255, 63], Next_frame,
       Sendall (replicate 9600 0), Close], None) \<and>
   spec_first_line '' nonexistent\<newline>Hi'' = '' nonexistent'' \<and>
   parse_request '' nonexistent\<newline>Hi'' = (''nonexistent'', ''Hi'')"
proof -
  have a: "spec_first_line ''\<newline>Hello\<newline>'' = []"
    "spec_first_line '' nonexistent\<newline>Hi'' = '' nonexistent''"
    by (simp_all add: spec_first_line_def)
  have b: "parse_request ''\<newline>Hello\<newline>'' = (''Hello'', ''Hello world'')"
    "parse_request '' nonexistent\<newline>Hi'' = (''nonexistent'', ''Hi'')"
    by (simp_all add: parse_request_def strip_def isspace_def Let_def)
  have c: "handle_client (*) demo_model [''alba'' \<mapsto> ''alba''] ''\<newline>Hello\<newline>'' =
     ([''alba'' \<mapsto> ''alba'', ''Hello'' \<mapsto> ''Hello''],
      [Get_state ''Hello'', Sendall demo_header, Generate ''Hello'' ''Hello world'',
       Next_frame, Sendall [255, 127, 1, 128], Next_frame, Sendall [255, 63], Next_frame,
       Sendall (replicate 9600 0), Close], None)"
    apply (simp add: handle_client_def b Let_def
        demo_model_def raw_make_wav_header_eq demo_header_eq py_bytes_def silence_samples_nonneg)
    apply (simp add: tobytes_def short_def trunc_toward_zero_def clamp_def drop_bit_eq_div)
    done
  from a b c show ?thesis by simp
qed

lemma demo_raw_unknown:
  "handle_client (*) demo_model [''alba'' \<mapsto> ''alba''] ''nonexistent\<newline>Hi'' =
     ([''alba'' \<mapsto> ''alba'', ''nonexistent'' \<mapsto> ''nonexistent''],
      [Get_state ''nonexistent'', Sendall demo_header, Generate ''nonexistent'' ''Hi'',
       Next_frame, Sendall [255, 127, 1, 128], Next_frame, Sendall [255, 63], Next_frame,
       Sendall (replicate 9600 0), Close], None)"
  apply (simp add: handle_client_def parse_request_def strip_def isspace_def Let_def
      demo_model_def raw_make_wav_header_eq demo_header_eq py_bytes_def silence_samples_nonneg)
  apply (simp add: tobytes_def short_def trunc_toward_zero_def clamp_def drop_bit_eq_div)
  done

theorem raw_no_voice_validation_witness:
  "parse_request ''nonexistent\<newline>Hi'' = (''nonexistent'', ''Hi'') \<and>
   spec_first_line ''nonexistent\<newline>Hi'' = ''nonexistent'' \<and>
   ''nonexistent'' \<notin> set VOICES \<and>
   (\<exists>evs x. handle_client (*) demo_model [''alba'' \<mapsto> ''alba''] ''nonexistent\<newline>Hi'' =
      ([''alba'' \<mapsto> ''alba'', ''nonexistent'' \<mapsto> ''nonexistent''],
       Get_state ''nonexistent'' # evs, x)) \<and>
   (\<exists>evs x. handle_client (*) demo_model [''alba'' \<mapsto> ''alba''] [] =
      ([''alba'' \<mapsto> ''alba'', [] \<mapsto> []], Get_state [] # evs, x)) \<and>
   (\<exists>evs x. handle_client (*) demo_model [''alba'' \<mapsto> ''alba''] ''alba\<newline>Hi'' =
      ([''alba'' \<mapsto> ''alba''], evs, x) \<and> Get_state ''alba'' \<notin> set evs) \<and>
   fst (serve (*) demo_model [''alba'' \<mapsto> ''alba'', ''nonexistent'' \<mapsto> ''nonexistent'']
          [''alba\<newline>Hi'', [], ''marius'']) ''nonexistent'' = Some ''nonexistent'' \<and>
   (\<exists>d. post_tts demo_env init_daemon (Some ''Hi'') (Some ''nonexistent'') =
      (Handled (Inl (HTTPException 400 d)), init_daemon)) \<and>
   post_tts_buffered demo_env init_daemon None (Some ''nonexistent'') =
      (Unprocessable_422, init_daemon)"
proof -
  have p: "parse_request ''nonexistent\<newline>Hi'' = (''nonexistent'', ''Hi'')"
    "parse_request [] = ([], ''Hello world'')"
    "parse_request ''alba\<newline>Hi'' = (''alba'', ''Hi'')"
    by (simp_all add: parse_request_def strip_def isspace_def Let_def)
  have s: "strip ''nonexistent\<newline>Hi'' = ''nonexistent\<newline>Hi''"
    by (simp add: strip_def isspace_def)
  have v: "''nonexistent'' \<noteq> [] \<and> ''nonexistent'' \<notin> set VOICES"
    by (simp add: VOICES_def)
  have g: "get_state_for_audio_prompt demo_model w = w" for w
    by (simp add: demo_model_def)
  note t = raw_no_voice_validation [THEN conjunct2]
  have f: "spec_first_line ''nonexistent\<newline>Hi'' = ''nonexistent''"
    using t [THEN conjunct1, rule_format, OF s] by (simp add: p)
  note t = t [THEN conjunct2]
  have a: "\<exists>evs x. handle_client (*) demo_model [''alba'' \<mapsto> ''alba''] ''nonexistent\<newline>Hi'' =
      ([''alba'' \<mapsto> ''alba'', ''nonexistent'' \<mapsto> ''nonexistent''],
       Get_state ''nonexistent'' # evs, x)"
    using t [THEN conjunct1, rule_format,
        of "[''alba'' \<mapsto> ''alba'']" "''nonexistent\<newline>Hi''" "(*)" demo_model]
    by (auto simp: p g)
  have b: "\<exists>evs x. handle_client (*) demo_model [''alba'' \<mapsto> ''alba''] [] =
      ([''alba'' \<mapsto> ''alba'', [] \<mapsto> []], Get_state [] # evs, x)"
    using t [THEN conjunct1, rule_format, of "[''alba'' \<mapsto> ''alba'']" "[]" "(*)" demo_model]
    by (auto simp: p g)
  have b': "\<exists>evs x. handle_client (*) demo_model [''alba'' \<mapsto> ''alba''] ''alba\<newline>Hi'' =
      ([''alba'' \<mapsto> ''alba''], evs, x) \<and> Get_state ''alba'' \<notin> set evs"
    using t [THEN conjunct2, THEN conjunct1, rule_format,
        of "[''alba'' \<mapsto> ''alba'']" "''alba\<newline>Hi''" "''alba''" "(*)" demo_model]
    by (auto simp: p)
  have c: "fst (serve (*) demo_model [''alba'' \<mapsto> ''alba'', ''nonexistent'' \<mapsto> ''nonexistent'']
          [''alba\<newline>Hi'', [], ''marius'']) ''nonexistent'' = Some ''nonexistent''"
    by (rule t [THEN conjunct2, THEN conjunct2, THEN conjunct1, rule_format]) simp
  note t4 = t [THEN conjunct2, THEN conjunct2, THEN conjunct2, THEN conjunct1, rule_format, OF v]
  have d: "\<exists>d. post_tts demo_env init_daemon (Some ''Hi'') (Some ''nonexistent'') =
      (Handled (Inl (HTTPException 400 d)), init_daemon)"
  proof -
    have "fst (post_tts demo_env init_daemon (Some ''Hi'') (Some ''nonexistent'')) \<noteq>
        Unprocessable_422"
      by (simp add: post_tts_def form_value_def case_prod_unfold Let_def)
    with t4 [THEN conjunct1, of demo_env init_daemon "Some ''Hi''"] show ?thesis by auto
  qed
  have e: "post_tts_buffered demo_env init_daemon None (Some ''nonexistent'') =
      (Unprocessable_422, init_daemon)"
  proof -
    have "fst (post_tts_buffered demo_env init_daemon None (Some ''nonexistent'')) =
        Unprocessable_422"
      by (simp add: post_tts_buffered_def form_value_def)
    with t4 [THEN conjunct2, of demo_env init_daemon None] show ?thesis by auto
  qed
  from p(1) f v a b b' c d e show ?thesis by blast
qed

end
